theory Spec2Isabelle
  imports Complex_Main
begin

section \<open>Data model\<close>

text \<open>
  The program is a React component (\<^verbatim>\<open>src/src/App.jsx\<close>) and an earlier variant of
  it without drag editing (\<^verbatim>\<open>src/unnamed/part_000\<close>). A JavaScript number is
  a real; the handlers and \<open>calculateArea\<close> are first embedded with exact arithmetic
  on these reals. Section \<open>Double-precision arithmetic\<close> adds the rounding of IEEE
  doubles and embeds \<open>calculateArea\<close> a second time, as \<open>calculateArea_double\<close>,
  rounding after every operation as the source does. A \<^verbatim>\<open>{x, y}\<close> object is a
  record; its fields are called \<open>px\<close> and \<open>py\<close> so that \<open>x\<close> and \<open>y\<close> stay
  free for the cursor coordinates.
\<close>

record point =
  px :: real
  py :: real

section \<open>calculateArea (App.jsx, lines 89-99)\<close>

text \<open>
  The body of the \<^verbatim>\<open>for\<close> loop, with the loop counter \<open>i\<close> and the accumulator
  (\<^verbatim>\<open>area\<close> in the source) as arguments; the two compound assignments are kept
  as two steps. Products, sums and differences are exact here; \<open>calculateArea_double\<close>
  below is the same loop with each of them rounded to a double.
\<close>

function calculateArea_loop :: "point list \<Rightarrow> nat \<Rightarrow> real \<Rightarrow> real" where
  "calculateArea_loop polygonPoints i a =
     (if i < length polygonPoints then
        (let j = (i + 1) mod length polygonPoints;
             a1 = a + px (polygonPoints ! i) * py (polygonPoints ! j);
             a2 = a1 - px (polygonPoints ! j) * py (polygonPoints ! i)
         in calculateArea_loop polygonPoints (i + 1) a2)
      else a)"
  by pat_completeness auto
termination
  by (relation "measure (\<lambda>(polygonPoints, i, a). length polygonPoints - i)") auto

declare calculateArea_loop.simps [simp del]

definition calculateArea :: "point list \<Rightarrow> real" where
  "calculateArea polygonPoints =
     (if length polygonPoints < 3 then 0
      else \<bar>calculateArea_loop polygonPoints 0 0 / 2\<bar>)"

section \<open>calculateArea of the variant without drag editing (part_000, lines 81-91)\<close>

function calculateArea_v0_loop :: "point list \<Rightarrow> nat \<Rightarrow> real \<Rightarrow> real" where
  "calculateArea_v0_loop polygonPoints i a =
     (if i < length polygonPoints then
        (let j = (i + 1) mod length polygonPoints;
             a1 = a + px (polygonPoints ! i) * py (polygonPoints ! j);
             a2 = a1 - px (polygonPoints ! j) * py (polygonPoints ! i)
         in calculateArea_v0_loop polygonPoints (i + 1) a2)
      else a)"
  by pat_completeness auto
termination
  by (relation "measure (\<lambda>(polygonPoints, i, a). length polygonPoints - i)") auto

declare calculateArea_v0_loop.simps [simp del]

definition calculateArea_v0 :: "point list \<Rightarrow> real" where
  "calculateArea_v0 polygonPoints =
     (if length polygonPoints < 3 then 0
      else \<bar>calculateArea_v0_loop polygonPoints 0 0 / 2\<bar>)"

section \<open>Component state\<close>

text \<open>
  A completed polygon is the object \<^verbatim>\<open>{area, points}\<close>; its \<^verbatim>\<open>points\<close> field is
  called \<open>poly_points\<close> here, the name \<open>points\<close> being the component's state variable.
  A hit-test result is \<^verbatim>\<open>{type: "current", index}\<close> or
  \<^verbatim>\<open>{type: "polygon", index, polygonIndex}\<close>: the constructor \<open>Polygon\<close> takes the
  vertex index first and the polygon index second.
\<close>

record polygon =
  area :: real
  poly_points :: "point list"

datatype target = Current nat | Polygon nat nat

datatype cursor = Crosshair | Pointer | Grabbing

text \<open>
  The \<^verbatim>\<open>useState\<close> variables of part_000 (\<open>points\<close>, \<open>mousePos\<close>, \<open>isDrawing\<close>,
  \<open>polygons\<close>), and those App.jsx adds to them.
\<close>

record app_state_v0 =
  points :: "point list"
  mousePos :: "point option"
  isDrawing :: bool
  polygons :: "polygon list"

record app_state = app_state_v0 +
  draggedPoint :: "target option"
  hoveredPoint :: "target option"
  cursorStyle :: cursor

definition initial_state_v0 :: app_state_v0 where
  "initial_state_v0 =
     \<lparr>points = [], mousePos = None, isDrawing = False, polygons = []\<rparr>"

definition initial_state :: app_state where
  "initial_state =
     \<lparr>points = [], mousePos = None, isDrawing = False, polygons = [],
      draggedPoint = None, hoveredPoint = None, cursorStyle = Crosshair\<rparr>"

text \<open>
  \<^verbatim>\<open>Math.sqrt(Math.pow(x - p.x, 2) + Math.pow(y - p.y, 2))\<close>, which the source writes
  out at each of its uses.
\<close>

definition distance :: "real \<Rightarrow> real \<Rightarrow> point \<Rightarrow> real" where
  "distance x y p = sqrt ((x - px p)\<^sup>2 + (y - py p)\<^sup>2)"

section \<open>getPointAtPosition (App.jsx, lines 102-127)\<close>

text \<open>The first loop, over the points being drawn, from index \<open>i\<close> on.\<close>

function getPointAtPosition_current :: "point list \<Rightarrow> real \<Rightarrow> real \<Rightarrow> nat \<Rightarrow> target option" where
  "getPointAtPosition_current pts x y i =
     (if i < length pts then
        (if distance x y (pts ! i) \<le> 10 then Some (Current i)
         else getPointAtPosition_current pts x y (i + 1))
      else None)"
  by pat_completeness auto
termination
  by (relation "measure (\<lambda>(pts, x, y, i). length pts - i)") auto

declare getPointAtPosition_current.simps [simp del]

text \<open>The inner loop of the second part, over the points of polygon \<open>polygonIndex\<close>.\<close>

function getPointAtPosition_inner :: "point list \<Rightarrow> nat \<Rightarrow> real \<Rightarrow> real \<Rightarrow> nat \<Rightarrow> target option" where
  "getPointAtPosition_inner pts polygonIndex x y i =
     (if i < length pts then
        (if distance x y (pts ! i) \<le> 10 then Some (Polygon i polygonIndex)
         else getPointAtPosition_inner pts polygonIndex x y (i + 1))
      else None)"
  by pat_completeness auto
termination
  by (relation "measure (\<lambda>(pts, polygonIndex, x, y, i). length pts - i)") auto

declare getPointAtPosition_inner.simps [simp del]

text \<open>The outer loop, over the completed polygons.\<close>

function getPointAtPosition_polygons :: "polygon list \<Rightarrow> real \<Rightarrow> real \<Rightarrow> nat \<Rightarrow> target option" where
  "getPointAtPosition_polygons polys x y polygonIndex =
     (if polygonIndex < length polys then
        (case getPointAtPosition_inner (poly_points (polys ! polygonIndex)) polygonIndex x y 0 of
           Some t \<Rightarrow> Some t
         | None \<Rightarrow> getPointAtPosition_polygons polys x y (polygonIndex + 1))
      else None)"
  by pat_completeness auto
termination
  by (relation "measure (\<lambda>(polys, x, y, polygonIndex). length polys - polygonIndex)") auto

declare getPointAtPosition_polygons.simps [simp del]

definition getPointAtPosition :: "app_state \<Rightarrow> real \<Rightarrow> real \<Rightarrow> target option" where
  "getPointAtPosition s x y =
     (case getPointAtPosition_current (points s) x y 0 of
        Some t \<Rightarrow> Some t
      | None \<Rightarrow> getPointAtPosition_polygons (polygons s) x y 0)"

section \<open>Event handlers of App.jsx\<close>

text \<open>
  Each handler reads the state of the render it was created in and queues updates;
  React applies them before the next event is delivered, so a handler is a function
  from the state and the event's canvas coordinates to the next state. Drawing on
  the canvas context does not touch the state and is left out.
\<close>

text \<open>
  \<^verbatim>\<open>newPoints = [...prev]; newPoints[i] = v\<close>: inside the array the element is
  replaced, at \<open>i = length\<close> the array grows by one, and further out JavaScript leaves
  holes. The state holds dense arrays only, so the last case is \<open>None\<close>.
\<close>

definition js_assign :: "'a list \<Rightarrow> nat \<Rightarrow> 'a \<Rightarrow> 'a list option" where
  "js_assign xs i v =
     (if i < length xs then Some (xs[i := v])
      else if i = length xs then Some (xs @ [v])
      else None)"

text \<open>
  \<open>TypeError\<close>: the source reads \<^verbatim>\<open>.points\<close> of \<^verbatim>\<open>undefined\<close>. \<open>Sparse_Array\<close>: the
  source builds an array with a hole, which this state type does not hold (a later
  read of the hole's \<^verbatim>\<open>.x\<close> raises \<^verbatim>\<open>TypeError\<close>).
\<close>

datatype error = TypeError | Sparse_Array

definition handleContextMenu :: "app_state \<Rightarrow> real \<Rightarrow> real \<Rightarrow> app_state" where
  "handleContextMenu s x y =
     s\<lparr>points := points s @ [\<lparr>px = x, py = y\<rparr>], isDrawing := True\<rparr>"

definition handleMouseMove :: "app_state \<Rightarrow> real \<Rightarrow> real \<Rightarrow> error + app_state" where
  "handleMouseMove s x y =
     (case draggedPoint s of
        Some (Current idx) \<Rightarrow>
          (case js_assign (points s) idx \<lparr>px = x, py = y\<rparr> of
             None \<Rightarrow> Inl Sparse_Array
           | Some newPoints \<Rightarrow> Inr (s\<lparr>points := newPoints\<rparr>))
      | Some (Polygon idx polygonIndex) \<Rightarrow>
          (if polygonIndex < length (polygons s) then
             (case js_assign (poly_points (polygons s ! polygonIndex)) idx \<lparr>px = x, py = y\<rparr> of
                None \<Rightarrow> Inl Sparse_Array
              | Some newPoints \<Rightarrow>
                  Inr (s\<lparr>polygons := (polygons s)
                          [polygonIndex := (polygons s ! polygonIndex)
                             \<lparr>poly_points := newPoints, area := calculateArea newPoints\<rparr>]\<rparr>))
           else Inl TypeError)
      | None \<Rightarrow>
          (let s1 = (if isDrawing s then s\<lparr>mousePos := Some \<lparr>px = x, py = y\<rparr>\<rparr> else s)
           in case getPointAtPosition s x y of
                Some pointAtPosition \<Rightarrow>
                  Inr (s1\<lparr>hoveredPoint := Some pointAtPosition, cursorStyle := Pointer\<rparr>)
              | None \<Rightarrow> Inr (s1\<lparr>hoveredPoint := None, cursorStyle := Crosshair\<rparr>)))"

definition handleMouseDown :: "app_state \<Rightarrow> int \<Rightarrow> real \<Rightarrow> real \<Rightarrow> app_state" where
  "handleMouseDown s button x y =
     (if button \<noteq> 0 then s
      else case getPointAtPosition s x y of
             Some pointAtPosition \<Rightarrow>
               s\<lparr>draggedPoint := Some pointAtPosition, cursorStyle := Grabbing\<rparr>
           | None \<Rightarrow> s)"

definition handleMouseUp :: "app_state \<Rightarrow> app_state" where
  "handleMouseUp s =
     (if draggedPoint s \<noteq> None then
        s\<lparr>draggedPoint := None,
          cursorStyle := (if hoveredPoint s \<noteq> None then Pointer else Crosshair)\<rparr>
      else s)"

definition handleClick :: "app_state \<Rightarrow> real \<Rightarrow> real \<Rightarrow> app_state" where
  "handleClick s x y =
     (if length (points s) = 0 then s
      else if draggedPoint s \<noteq> None then s
      else
        (let firstPoint = points s ! 0 in
         if distance x y firstPoint \<le> 10 then
           (let calculatedArea = calculateArea (points s) in
            s\<lparr>points := [],
              polygons := polygons s @ [\<lparr>area = calculatedArea, poly_points = points s\<rparr>],
              isDrawing := False,
              mousePos := None\<rparr>)
         else s))"

text \<open>The events the canvas element is wired to, and their dispatch.\<close>

datatype event =
    ContextMenu real real
  | MouseMove real real
  | MouseDown int real real
  | MouseUp
  | Click real real

fun handle :: "app_state \<Rightarrow> event \<Rightarrow> error + app_state" where
  "handle s (ContextMenu x y) = Inr (handleContextMenu s x y)"
| "handle s (MouseMove x y) = handleMouseMove s x y"
| "handle s (MouseDown button x y) = Inr (handleMouseDown s button x y)"
| "handle s MouseUp = Inr (handleMouseUp s)"
| "handle s (Click x y) = Inr (handleClick s x y)"

section \<open>Event handlers of the variant without drag editing (part_000)\<close>

definition handleContextMenu_v0 :: "app_state_v0 \<Rightarrow> real \<Rightarrow> real \<Rightarrow> app_state_v0" where
  "handleContextMenu_v0 s x y =
     s\<lparr>points := points s @ [\<lparr>px = x, py = y\<rparr>], isDrawing := True\<rparr>"

definition handleMouseMove_v0 :: "app_state_v0 \<Rightarrow> real \<Rightarrow> real \<Rightarrow> app_state_v0" where
  "handleMouseMove_v0 s x y =
     (if \<not> isDrawing s then s
      else s\<lparr>mousePos := Some \<lparr>px = x, py = y\<rparr>\<rparr>)"

definition handleClick_v0 :: "app_state_v0 \<Rightarrow> real \<Rightarrow> real \<Rightarrow> app_state_v0" where
  "handleClick_v0 s x y =
     (if length (points s) = 0 then s
      else
        (let firstPoint = points s ! 0 in
         if distance x y firstPoint \<le> 10 then
           (let calculatedArea = calculateArea_v0 (points s) in
            s\<lparr>points := [],
              polygons := polygons s @ [\<lparr>area = calculatedArea, poly_points = points s\<rparr>],
              isDrawing := False,
              mousePos := None\<rparr>)
         else s))"

section \<open>The Shoelace formula as the specification words it\<close>

text \<open>
  The term of the sum for index \<open>i\<close>, with \<open>i + 1\<close> wrapping to \<open>0\<close>, and the
  specification's \<open>SignedArea\<close> and \<open>PolygonArea\<close>.
\<close>

definition shoelace_term :: "point list \<Rightarrow> nat \<Rightarrow> real" where
  "shoelace_term ps i =
     px (ps ! i) * py (ps ! ((i + 1) mod length ps))
     - px (ps ! ((i + 1) mod length ps)) * py (ps ! i)"

definition ShoelaceSum :: "point list \<Rightarrow> real" where
  "ShoelaceSum ps = sum_list (map (shoelace_term ps) [0..<length ps])"

definition SignedArea :: "point list \<Rightarrow> real" where
  "SignedArea ps = (if length ps < 3 then 0 else ShoelaceSum ps / 2)"

definition PolygonArea :: "point list \<Rightarrow> real" where
  "PolygonArea ps = \<bar>SignedArea ps\<bar>"

section \<open>Reachable states\<close>

text \<open>
  A drag target is valid when it names an existing vertex. The states the component
  can be in are those reached from the initial state by events whose handler returns.
\<close>

fun valid_target :: "app_state \<Rightarrow> target \<Rightarrow> bool" where
  "valid_target s (Current i) = (i < length (points s))"
| "valid_target s (Polygon i polygonIndex) =
     (polygonIndex < length (polygons s)
      \<and> i < length (poly_points (polygons s ! polygonIndex)))"

definition drag_valid :: "app_state \<Rightarrow> bool" where
  "drag_valid s = (case draggedPoint s of None \<Rightarrow> True | Some t \<Rightarrow> valid_target s t)"

definition areas_fresh :: "app_state \<Rightarrow> bool" where
  "areas_fresh s = list_all (\<lambda>p. area p = calculateArea (poly_points p)) (polygons s)"

inductive reachable :: "app_state \<Rightarrow> bool" where
  reachable_initial: "reachable initial_state"
| reachable_step: "reachable s \<Longrightarrow> handle s e = Inr s' \<Longrightarrow> reachable s'"

section \<open>Double-precision arithmetic\<close>

text \<open>
  JavaScript computes \<^verbatim>\<open>*\<close>, \<^verbatim>\<open>+\<close>, \<^verbatim>\<open>-\<close> and \<^verbatim>\<open>/\<close> on IEEE 754 binary64
  numbers: the exact result is rounded to the nearest double, a tie going to the even
  significand. The unit in the last place of a result \<open>x\<close> is \<open>2\<close> to the power
  \<open>\<lfloor>log\<^sub>2 \<bar>x\<bar>\<rfloor> - 52\<close>, and never less than \<open>2\<close> to the power \<open>- 1074\<close>
  (subnormal numbers). A rounded result of magnitude \<open>2 ^ 1024\<close> or more is
  \<^verbatim>\<open>Infinity\<close> in JavaScript; the operations below return \<open>None\<close> there and do
  not follow the computation further. The sign of a zero is not kept:
  \<^verbatim>\<open>Math.abs\<close> and the comparisons do not see it.
\<close>

definition round_half_even :: "real \<Rightarrow> int" where
  "round_half_even r =
     (let f = \<lfloor>r\<rfloor> in
      if r - of_int f < 1 / 2 then f
      else if 1 / 2 < r - of_int f then f + 1
      else if even f then f else f + 1)"

definition double_exponent :: "real \<Rightarrow> int" where
  "double_exponent x = max \<lfloor>log 2 \<bar>x\<bar>\<rfloor> (- 1022) - 52"

definition round_double :: "real \<Rightarrow> real" where
  "round_double x =
     (if x = 0 then 0
      else of_int (round_half_even (x / 2 powi double_exponent x)) * 2 powi double_exponent x)"

definition finite_double :: "real \<Rightarrow> real option" where
  "finite_double r = (if \<bar>r\<bar> < 2 ^ 1024 then Some r else None)"

definition double_mul :: "real \<Rightarrow> real \<Rightarrow> real option" where
  "double_mul a b = finite_double (round_double (a * b))"

definition double_add :: "real \<Rightarrow> real \<Rightarrow> real option" where
  "double_add a b = finite_double (round_double (a + b))"

definition double_sub :: "real \<Rightarrow> real \<Rightarrow> real option" where
  "double_sub a b = finite_double (round_double (a - b))"

definition double_div :: "real \<Rightarrow> real \<Rightarrow> real option" where
  "double_div a b = finite_double (round_double (a / b))"

section \<open>calculateArea in double arithmetic (App.jsx, lines 89-99)\<close>

text \<open>
  The loop of \<open>calculateArea\<close> once more, each product rounded before it is added
  or subtracted and each sum and difference rounded before it is stored in the
  accumulator; then \<^verbatim>\<open>Math.abs(area / 2)\<close>, the quotient rounded.
\<close>

function calculateArea_double_loop :: "point list \<Rightarrow> nat \<Rightarrow> real \<Rightarrow> real option" where
  "calculateArea_double_loop polygonPoints i a =
     (if i < length polygonPoints then
        (let j = (i + 1) mod length polygonPoints in
         case double_mul (px (polygonPoints ! i)) (py (polygonPoints ! j)) of
           None \<Rightarrow> None
         | Some p1 \<Rightarrow>
         (case double_add a p1 of
            None \<Rightarrow> None
          | Some a1 \<Rightarrow>
          (case double_mul (px (polygonPoints ! j)) (py (polygonPoints ! i)) of
             None \<Rightarrow> None
           | Some p2 \<Rightarrow>
           (case double_sub a1 p2 of
              None \<Rightarrow> None
            | Some a2 \<Rightarrow> calculateArea_double_loop polygonPoints (i + 1) a2))))
      else Some a)"
  by pat_completeness auto
termination
  by (relation "measure (\<lambda>(polygonPoints, i, a). length polygonPoints - i)") auto

declare calculateArea_double_loop.simps [simp del]

definition calculateArea_double :: "point list \<Rightarrow> real option" where
  "calculateArea_double polygonPoints =
     (if length polygonPoints < 3 then Some 0
      else case calculateArea_double_loop polygonPoints 0 0 of
             None \<Rightarrow> None
           | Some a \<Rightarrow>
             (case double_div a 2 of None \<Rightarrow> None | Some h \<Rightarrow> Some \<bar>h\<bar>))"

section \<open>The loop computes the Shoelace sum\<close>

lemma calculateArea_loop_sum:
  "i \<le> length ps \<Longrightarrow>
   calculateArea_loop ps i a = a + sum_list (map (shoelace_term ps) [i..<length ps])"
proof (induction ps i a rule: calculateArea_loop.induct)
  case (1 ps i a)
  show ?case
  proof (cases "i < length ps")
    case True
    define a2 where
      "a2 = a + px (ps ! i) * py (ps ! ((i + 1) mod length ps))
              - px (ps ! ((i + 1) mod length ps)) * py (ps ! i)"
    have step: "calculateArea_loop ps i a = calculateArea_loop ps (i + 1) a2"
      using True by (subst calculateArea_loop.simps) (simp add: Let_def a2_def)
    have "calculateArea_loop ps (i + 1) a2
          = a2 + sum_list (map (shoelace_term ps) [i + 1..<length ps])"
      using True by (intro "1.IH") (simp_all add: a2_def)
    moreover have "a2 = a + shoelace_term ps i"
      by (simp add: a2_def shoelace_term_def)
    moreover have "[i..<length ps] = i # [i + 1..<length ps]"
      using True by (simp add: upt_conv_Cons)
    ultimately show ?thesis
      using step by simp
  next
    case False
    with "1.prems" show ?thesis
      by (subst calculateArea_loop.simps) simp
  qed
qed

lemma calculateArea_loop_ShoelaceSum: "calculateArea_loop ps 0 0 = ShoelaceSum ps"
  by (simp add: calculateArea_loop_sum ShoelaceSum_def)

lemma calculateArea_v0_loop_eq:
  "calculateArea_v0_loop ps i a = calculateArea_loop ps i a"
proof (induction ps i a rule: calculateArea_loop.induct)
  case (1 ps i a)
  show ?case
  proof (cases "i < length ps")
    case True
    with "1.IH" show ?thesis
      by (subst calculateArea_v0_loop.simps, subst calculateArea_loop.simps)
         (simp add: Let_def)
  next
    case False
    then show ?thesis
      by (subst calculateArea_v0_loop.simps, subst calculateArea_loop.simps) simp
  qed
qed


section \<open>Reversing the vertex order negates the Shoelace sum\<close>

lemma ShoelaceSum_sum: "ShoelaceSum ps = (\<Sum>i<length ps. shoelace_term ps i)"
  by (simp add: ShoelaceSum_def interv_sum_list_conv_sum_set_nat atLeast0LessThan)

lemma ShoelaceSum_split:
  assumes "length ps = Suc m"
  shows "ShoelaceSum ps =
     (\<Sum>i<m. px (ps ! i) * py (ps ! Suc i) - px (ps ! Suc i) * py (ps ! i))
     + (px (ps ! m) * py (ps ! 0) - px (ps ! 0) * py (ps ! m))"
proof -
  have "(\<Sum>i<m. shoelace_term ps i)
        = (\<Sum>i<m. px (ps ! i) * py (ps ! Suc i) - px (ps ! Suc i) * py (ps ! i))"
    by (rule sum.cong) (simp_all add: shoelace_term_def assms)
  moreover have "shoelace_term ps m = px (ps ! m) * py (ps ! 0) - px (ps ! 0) * py (ps ! m)"
    by (simp add: shoelace_term_def assms)
  ultimately show ?thesis
    by (simp add: ShoelaceSum_sum assms)
qed

lemma ShoelaceSum_rev: "ShoelaceSum (rev ps) = - ShoelaceSum ps"
proof (cases ps)
  case Nil
  then show ?thesis by (simp add: ShoelaceSum_def)
next
  case (Cons p qs)
  define m where "m = length qs"
  have len: "length ps = Suc m" and lenr: "length (rev ps) = Suc m"
    by (simp_all add: Cons m_def)
  define g where "g i = px (ps ! i) * py (ps ! Suc i) - px (ps ! Suc i) * py (ps ! i)" for i
  have "(\<Sum>i<m. px (rev ps ! i) * py (rev ps ! Suc i) - px (rev ps ! Suc i) * py (rev ps ! i))
        = (\<Sum>i<m. - g (m - Suc i))"
  proof (rule sum.cong)
    fix i assume "i \<in> {..<m}"
    then have i: "i < m" by simp
    then have "rev ps ! i = ps ! Suc (m - Suc i)" "rev ps ! Suc i = ps ! (m - Suc i)"
      by (simp_all add: rev_nth len Suc_diff_Suc)
    then show "px (rev ps ! i) * py (rev ps ! Suc i) - px (rev ps ! Suc i) * py (rev ps ! i)
               = - g (m - Suc i)"
      by (simp add: g_def)
  qed simp
  also have "\<dots> = - (\<Sum>i<m. g (m - Suc i))"
    by (simp add: sum_negf)
  also have "\<dots> = - (\<Sum>i<m. g i)"
    by (simp add: sum.nat_diff_reindex)
  finally have inner: "(\<Sum>i<m. px (rev ps ! i) * py (rev ps ! Suc i)
                              - px (rev ps ! Suc i) * py (rev ps ! i)) = - (\<Sum>i<m. g i)" .
  have "rev ps ! m = ps ! 0" "rev ps ! 0 = ps ! m"
    by (simp_all add: rev_nth len)
  then have last: "px (rev ps ! m) * py (rev ps ! 0) - px (rev ps ! 0) * py (rev ps ! m)
                   = - (px (ps ! m) * py (ps ! 0) - px (ps ! 0) * py (ps ! m))"
    by simp
  show ?thesis
    by (simp only: ShoelaceSum_split [OF lenr] ShoelaceSum_split [OF len] inner last)
       (simp add: g_def)
qed

section \<open>Distance to a point against the radius 10\<close>

lemma distance_le_10_iff:
  "distance x y p \<le> 10 \<longleftrightarrow> (x - px p)\<^sup>2 + (y - py p)\<^sup>2 \<le> 100"
proof -
  have "sqrt 100 = (10::real)"
    by (rule real_sqrt_unique) simp_all
  then have "distance x y p \<le> 10 \<longleftrightarrow> sqrt ((x - px p)\<^sup>2 + (y - py p)\<^sup>2) \<le> sqrt 100"
    by (simp add: distance_def)
  then show ?thesis
    by (simp only: real_sqrt_le_iff)
qed

lemma distance_gt_10_iff:
  "10 < distance x y p \<longleftrightarrow> 100 < (x - px p)\<^sup>2 + (y - py p)\<^sup>2"
  using distance_le_10_iff [of x y p] by linarith

section \<open>Hit-testing: what the loops return\<close>

lemma getPointAtPosition_current_None:
  "getPointAtPosition_current pts x y i = None
   \<longleftrightarrow> (\<forall>m. i \<le> m \<and> m < length pts \<longrightarrow> 10 < distance x y (pts ! m))"
proof (induction pts x y i rule: getPointAtPosition_current.induct)
  case (1 pts x y i)
  show ?case
  proof (cases "i < length pts \<and> \<not> distance x y (pts ! i) \<le> 10")
    case True
    then have "getPointAtPosition_current pts x y i
               = getPointAtPosition_current pts x y (i + 1)"
      by (subst getPointAtPosition_current.simps) simp
    moreover have "(\<forall>m. i \<le> m \<and> m < length pts \<longrightarrow> 10 < distance x y (pts ! m))
        \<longleftrightarrow> (\<forall>m. i + 1 \<le> m \<and> m < length pts \<longrightarrow> 10 < distance x y (pts ! m))"
      using True by (metis Suc_eq_plus1 Suc_leI le_neq_implies_less not_le order.strict_implies_order Suc_le_lessD)
    ultimately show ?thesis
      using "1.IH" True by simp
  next
    case False
    then show ?thesis
      by (subst getPointAtPosition_current.simps) (auto simp: not_le)
  qed
qed

lemma getPointAtPosition_current_Some:
  assumes "i \<le> k" and "k < length pts" and "distance x y (pts ! k) \<le> 10"
    and "\<forall>m. i \<le> m \<and> m < k \<longrightarrow> 10 < distance x y (pts ! m)"
  shows "getPointAtPosition_current pts x y i = Some (Current k)"
  using assms
proof (induction pts x y i rule: getPointAtPosition_current.induct)
  case (1 pts x y i)
  show ?case
  proof (cases "i = k")
    case True
    with "1.prems" show ?thesis
      by (subst getPointAtPosition_current.simps) simp
  next
    case False
    with "1.prems" have lt: "i < k" by simp
    with "1.prems" have far: "\<not> distance x y (pts ! i) \<le> 10" by (simp add: not_le)
    from lt "1.prems" have il: "i < length pts" by simp
    have "getPointAtPosition_current pts x y (i + 1) = Some (Current k)"
      using il far lt "1.prems" by (intro "1.IH") simp_all
    then show ?thesis
      using il far by (subst getPointAtPosition_current.simps) simp
  qed
qed

lemma getPointAtPosition_inner_None:
  "getPointAtPosition_inner pts j x y i = None
   \<longleftrightarrow> (\<forall>m. i \<le> m \<and> m < length pts \<longrightarrow> 10 < distance x y (pts ! m))"
proof (induction pts j x y i rule: getPointAtPosition_inner.induct)
  case (1 pts j x y i)
  show ?case
  proof (cases "i < length pts \<and> \<not> distance x y (pts ! i) \<le> 10")
    case True
    then have "getPointAtPosition_inner pts j x y i
               = getPointAtPosition_inner pts j x y (i + 1)"
      by (subst getPointAtPosition_inner.simps) simp
    moreover have "(\<forall>m. i \<le> m \<and> m < length pts \<longrightarrow> 10 < distance x y (pts ! m))
        \<longleftrightarrow> (\<forall>m. i + 1 \<le> m \<and> m < length pts \<longrightarrow> 10 < distance x y (pts ! m))"
      using True by (metis Suc_eq_plus1 Suc_leI le_neq_implies_less not_le order.strict_implies_order Suc_le_lessD)
    ultimately show ?thesis
      using "1.IH" True by simp
  next
    case False
    then show ?thesis
      by (subst getPointAtPosition_inner.simps) (auto simp: not_le)
  qed
qed

lemma getPointAtPosition_inner_Some:
  assumes "i \<le> k" and "k < length pts" and "distance x y (pts ! k) \<le> 10"
    and "\<forall>m. i \<le> m \<and> m < k \<longrightarrow> 10 < distance x y (pts ! m)"
  shows "getPointAtPosition_inner pts j x y i = Some (Polygon k j)"
  using assms
proof (induction pts j x y i rule: getPointAtPosition_inner.induct)
  case (1 pts j x y i)
  show ?case
  proof (cases "i = k")
    case True
    with "1.prems" show ?thesis
      by (subst getPointAtPosition_inner.simps) simp
  next
    case False
    with "1.prems" have lt: "i < k" by simp
    with "1.prems" have far: "\<not> distance x y (pts ! i) \<le> 10" by (simp add: not_le)
    from lt "1.prems" have il: "i < length pts" by simp
    have "getPointAtPosition_inner pts j x y (i + 1) = Some (Polygon k j)"
      using il far lt "1.prems" by (intro "1.IH") simp_all
    then show ?thesis
      using il far by (subst getPointAtPosition_inner.simps) simp
  qed
qed

lemma getPointAtPosition_polygons_None:
  "getPointAtPosition_polygons polys x y n = None
   \<longleftrightarrow> (\<forall>j. n \<le> j \<and> j < length polys \<longrightarrow>
         (\<forall>m < length (poly_points (polys ! j)).
            10 < distance x y (poly_points (polys ! j) ! m)))"
proof (induction polys x y n rule: getPointAtPosition_polygons.induct)
  case (1 polys x y n)
  let ?far = "\<lambda>j. \<forall>m < length (poly_points (polys ! j)).
                      10 < distance x y (poly_points (polys ! j) ! m)"
  show ?case
  proof (cases "n < length polys")
    case False
    then show ?thesis
      by (subst getPointAtPosition_polygons.simps) simp
  next
    case True
    show ?thesis
    proof (cases "getPointAtPosition_inner (poly_points (polys ! n)) n x y 0")
      case None
      then have far: "?far n"
        by (simp add: getPointAtPosition_inner_None)
      have "getPointAtPosition_polygons polys x y n
            = getPointAtPosition_polygons polys x y (n + 1)"
        using True None by (subst getPointAtPosition_polygons.simps) simp
      moreover have "(\<forall>j. n \<le> j \<and> j < length polys \<longrightarrow> ?far j)
                     \<longleftrightarrow> (\<forall>j. n + 1 \<le> j \<and> j < length polys \<longrightarrow> ?far j)"
        using far by (metis Suc_eq_plus1 Suc_leI le_neq_implies_less Suc_le_lessD less_imp_le_nat)
      ultimately show ?thesis
        using "1.IH" [OF True None] by simp
    next
      case (Some t)
      then have "\<not> ?far n"
        using getPointAtPosition_inner_None [of "poly_points (polys ! n)" n x y 0] by simp
      moreover have "getPointAtPosition_polygons polys x y n = Some t"
        using True Some by (subst getPointAtPosition_polygons.simps) simp
      ultimately show ?thesis
        using True by auto
    qed
  qed
qed

lemma getPointAtPosition_polygons_Some:
  assumes "n \<le> j" and "j < length polys"
    and "k < length (poly_points (polys ! j))"
    and "distance x y (poly_points (polys ! j) ! k) \<le> 10"
    and "\<forall>m < k. 10 < distance x y (poly_points (polys ! j) ! m)"
    and "\<forall>j'. n \<le> j' \<and> j' < j \<longrightarrow>
           (\<forall>m < length (poly_points (polys ! j')).
              10 < distance x y (poly_points (polys ! j') ! m))"
  shows "getPointAtPosition_polygons polys x y n = Some (Polygon k j)"
  using assms
proof (induction polys x y n rule: getPointAtPosition_polygons.induct)
  case (1 polys x y n)
  show ?case
  proof (cases "n = j")
    case True
    have "getPointAtPosition_inner (poly_points (polys ! j)) j x y 0 = Some (Polygon k j)"
      using "1.prems" by (intro getPointAtPosition_inner_Some) simp_all
    with True "1.prems" show ?thesis
      by (subst getPointAtPosition_polygons.simps) simp
  next
    case False
    with "1.prems" have lt: "n < j" by simp
    with "1.prems" have nl: "n < length polys" by simp
    have none: "getPointAtPosition_inner (poly_points (polys ! n)) n x y 0 = None"
      using "1.prems" lt by (simp add: getPointAtPosition_inner_None)
    have "getPointAtPosition_polygons polys x y (n + 1) = Some (Polygon k j)"
      using lt "1.prems" by (intro "1.IH" [OF nl none]) simp_all
    then show ?thesis
      using nl none by (subst getPointAtPosition_polygons.simps) simp
  qed
qed

lemma getPointAtPosition_current_valid:
  "getPointAtPosition_current pts x y i = Some t \<Longrightarrow> \<exists>k < length pts. t = Current k"
proof (induction pts x y i rule: getPointAtPosition_current.induct)
  case (1 pts x y i)
  from "1.prems" show ?case
    by (subst (asm) getPointAtPosition_current.simps) (auto split: if_splits dest: "1.IH")
qed

lemma getPointAtPosition_inner_valid:
  "getPointAtPosition_inner pts j x y i = Some t \<Longrightarrow> \<exists>k < length pts. t = Polygon k j"
proof (induction pts j x y i rule: getPointAtPosition_inner.induct)
  case (1 pts j x y i)
  from "1.prems" show ?case
    by (subst (asm) getPointAtPosition_inner.simps) (auto split: if_splits dest: "1.IH")
qed

lemma getPointAtPosition_polygons_valid:
  "getPointAtPosition_polygons polys x y n = Some t \<Longrightarrow>
   \<exists>j < length polys. \<exists>k < length (poly_points (polys ! j)). t = Polygon k j"
proof (induction polys x y n rule: getPointAtPosition_polygons.induct)
  case (1 polys x y n)
  from "1.prems" show ?case
    by (subst (asm) getPointAtPosition_polygons.simps)
       (auto split: if_splits option.splits dest: "1.IH" getPointAtPosition_inner_valid)
qed

lemma getPointAtPosition_valid:
  "getPointAtPosition s x y = Some t \<Longrightarrow> valid_target s t"
  by (auto simp add: getPointAtPosition_def split: option.splits
      dest: getPointAtPosition_current_valid getPointAtPosition_polygons_valid)

section \<open>Handlers: dragging, the store, and the reachable states\<close>

lemma calculateArea_eq_PolygonArea: "calculateArea ps = PolygonArea ps"
  by (simp add: calculateArea_def PolygonArea_def SignedArea_def
      calculateArea_loop_ShoelaceSum)

lemma handleMouseMove_drag_polygon:
  assumes "draggedPoint s = Some (Polygon k j)"
    and "j < length (polygons s)"
    and "k < length (poly_points (polygons s ! j))"
  shows "handleMouseMove s x y =
           Inr (s\<lparr>polygons := (polygons s)
                  [j := (polygons s ! j)
                     \<lparr>poly_points := (poly_points (polygons s ! j))[k := \<lparr>px = x, py = y\<rparr>],
                      area := calculateArea
                        ((poly_points (polygons s ! j))[k := \<lparr>px = x, py = y\<rparr>])\<rparr>]\<rparr>)"
  using assms by (simp add: handleMouseMove_def js_assign_def)

lemma handle_polygons_grow:
  assumes "handle t e = Inr t'"
  shows "length (polygons t) \<le> length (polygons t')
         \<and> (length (polygons t) < length (polygons t') \<longrightarrow>
              (\<exists>cx cy. e = Click cx cy) \<and> (\<exists>p. polygons t' = polygons t @ [p]))"
proof (cases e)
  case (MouseMove x y)
  with assms show ?thesis
    by (auto simp add: handleMouseMove_def Let_def
        split: option.splits target.splits if_splits)
next
  case (Click x y)
  then have "t' = handleClick t x y" using assms by simp
  then show ?thesis
    using Click by (auto simp add: handleClick_def Let_def)
qed (use assms in \<open>auto simp add: handleContextMenu_def handleMouseDown_def handleMouseUp_def
      split: option.splits if_splits\<close>)

lemma handle_total:
  assumes "drag_valid s"
  shows "\<exists>s'. handle s e = Inr s'"
proof (cases e)
  case (MouseMove x y)
  show ?thesis
  proof (cases "draggedPoint s")
    case None
    then show ?thesis
      using MouseMove by (simp add: handleMouseMove_def Let_def split: option.splits)
  next
    case (Some t)
    with assms have "valid_target s t" by (simp add: drag_valid_def)
    with Some MouseMove show ?thesis
      by (cases t) (simp_all add: handleMouseMove_def js_assign_def)
  qed
qed simp_all

lemma handle_drag_valid:
  assumes "drag_valid s" and "handle s e = Inr s'"
  shows "drag_valid s'"
proof (cases e)
  case (ContextMenu x y)
  with assms show ?thesis
    by (cases "draggedPoint s"; cases "the (draggedPoint s)")
       (auto simp add: drag_valid_def handleContextMenu_def)
next
  case (MouseMove x y)
  show ?thesis
  proof (cases "draggedPoint s")
    case None
    with assms MouseMove show ?thesis
      by (auto simp add: drag_valid_def handleMouseMove_def Let_def split: option.splits)
  next
    case (Some t)
    with assms have "valid_target s t" by (simp add: drag_valid_def)
    with Some MouseMove assms show ?thesis
      by (cases t) (auto simp add: drag_valid_def handleMouseMove_def js_assign_def
          nth_list_update)
  qed
next
  case (MouseDown button x y)
  with assms show ?thesis
    by (cases "draggedPoint s"; cases "the (draggedPoint s)")
       (auto simp add: drag_valid_def handleMouseDown_def
        split: option.splits if_splits dest!: getPointAtPosition_valid
        elim!: valid_target.elims)
next
  case MouseUp
  with assms show ?thesis
    by (auto simp add: drag_valid_def handleMouseUp_def)
next
  case (Click x y)
  show ?thesis
  proof (cases "draggedPoint s")
    case None
    with assms Click have "draggedPoint s' = None"
      by (auto simp add: handleClick_def Let_def split: if_splits)
    then show ?thesis
      by (simp add: drag_valid_def)
  next
    case (Some t)
    have "handleClick s x y = s"
      using Some by (simp add: handleClick_def)
    with assms Click have "s' = s"
      by simp
    with assms show ?thesis by simp
  qed
qed

lemma handle_areas_fresh:
  assumes "areas_fresh s" and "handle s e = Inr s'"
  shows "areas_fresh s'"
proof (cases e)
  case (MouseMove x y)
  have upd: "list_all P (xs[j := v])" if "list_all P xs" "P v" for P and xs :: "polygon list" and j v
    using that by (auto simp add: list_all_iff dest!: set_update_subset_insert [THEN subsetD])
  from assms MouseMove show ?thesis
    by (auto simp add: areas_fresh_def handleMouseMove_def Let_def js_assign_def
        split: option.splits target.splits if_splits intro!: upd)
next
  case (Click x y)
  with assms show ?thesis
    by (auto simp add: areas_fresh_def handleClick_def Let_def)
qed (use assms in \<open>auto simp add: areas_fresh_def handleContextMenu_def handleMouseDown_def
      handleMouseUp_def split: option.splits if_splits\<close>)

lemma reachable_invariant: "reachable s \<Longrightarrow> drag_valid s \<and> areas_fresh s"
proof (induction rule: reachable.induct)
  case reachable_initial
  show ?case by (simp add: initial_state_def drag_valid_def areas_fresh_def)
next
  case (reachable_step s e s')
  then show ?case
    using handle_drag_valid [of s e s'] handle_areas_fresh [of s e s'] by simp
qed

lemma reachable_no_error: "reachable s \<Longrightarrow> \<exists>s'. handle s e = Inr s'"
  by (simp add: reachable_invariant handle_total)

section \<open>Rounding to a double\<close>

lemma floor_log2_eq:
  assumes "2 powi k \<le> \<bar>x\<bar>" and "\<bar>x\<bar> < 2 powi (k + 1)"
  shows "\<lfloor>log 2 \<bar>x\<bar>\<rfloor> = k"
proof -
  have "(0::real) < 2 powi k" by simp
  with assms(1) have pos: "0 < \<bar>x\<bar>" by linarith
  have "(2::real) powr (of_int k) = 2 powi k" "(2::real) powr (of_int (k + 1)) = 2 powi (k + 1)"
    by (rule powr_real_of_int'; simp)+
  then have "2 powr (of_int k) \<le> \<bar>x\<bar> \<and> \<bar>x\<bar> < 2 powr (of_int k + 1)"
    using assms by simp
  then show ?thesis
    using floor_log_eq_powr_iff [of "\<bar>x\<bar>" 2 k] pos by simp
qed

lemma round_half_even_near:
  assumes "\<bar>r - of_int m\<bar> < 1 / 2"
  shows "round_half_even r = m"
proof -
  consider "of_int m \<le> r" | "r < of_int m" by linarith
  then show ?thesis
  proof cases
    case 1
    then have "\<lfloor>r\<rfloor> = m" using assms by (intro floor_unique) linarith+
    then show ?thesis using assms 1 by (simp add: round_half_even_def Let_def)
  next
    case 2
    then have f: "\<lfloor>r\<rfloor> = m - 1" using assms by (intro floor_unique) (simp; linarith)+
    then show ?thesis using assms 2 by (simp add: round_half_even_def Let_def)
  qed
qed

lemma round_double_nearestI:
  assumes "2 powi k \<le> \<bar>x\<bar>" and "\<bar>x\<bar> < 2 powi (k + 1)"
    and "e = max k (- 1022) - 52"
    and "r = of_int m * 2 powi e"
    and "\<bar>x - r\<bar> < 2 powi e / 2"
  shows "round_double x = r"
proof -
  have "(0::real) < 2 powi k" by simp
  with assms(1) have "0 < \<bar>x\<bar>" by linarith
  then have x0: "x \<noteq> 0" by auto
  have e: "double_exponent x = e"
    using floor_log2_eq [OF assms(1,2)] assms(3) by (simp add: double_exponent_def)
  have p: "(0::real) < 2 powi e" by simp
  have "x / 2 powi e - of_int m = (x - r) / 2 powi e"
    using assms(4) p by (simp add: field_simps)
  then have "\<bar>x / 2 powi e - of_int m\<bar> = \<bar>x - r\<bar> / 2 powi e"
    using p by (simp add: abs_divide)
  also have "\<dots> < 1 / 2"
    using assms(5) p by (simp add: field_simps)
  finally have "round_half_even (x / 2 powi e) = m"
    by (rule round_half_even_near)
  then show ?thesis
    using x0 e assms(4) by (simp add: round_double_def)
qed

lemma round_half_even_tie:
  assumes "even m" and "\<bar>r - of_int m\<bar> = 1 / 2"
  shows "round_half_even r = m"
proof -
  consider "r = of_int m + 1 / 2" | "r = of_int m - 1 / 2"
    using assms(2) by (auto simp add: abs_if split: if_splits)
  then show ?thesis
  proof cases
    case 1
    then have "\<lfloor>r\<rfloor> = m" by (intro floor_unique) simp_all
    then show ?thesis using 1 assms(1) by (simp add: round_half_even_def Let_def)
  next
    case 2
    then have "\<lfloor>r\<rfloor> = m - 1" by (intro floor_unique) simp_all
    then show ?thesis using 2 assms(1) by (simp add: round_half_even_def Let_def)
  qed
qed

lemma round_double_tieI:
  assumes "2 powi k \<le> \<bar>x\<bar>" and "\<bar>x\<bar> < 2 powi (k + 1)"
    and "e = max k (- 1022) - 52"
    and "r = of_int m * 2 powi e"
    and "even m"
    and "\<bar>x - r\<bar> = 2 powi e / 2"
  shows "round_double x = r"
proof -
  have "(0::real) < 2 powi k" by simp
  with assms(1) have "0 < \<bar>x\<bar>" by linarith
  then have x0: "x \<noteq> 0" by auto
  have e: "double_exponent x = e"
    using floor_log2_eq [OF assms(1,2)] assms(3) by (simp add: double_exponent_def)
  have p: "(0::real) < 2 powi e" by simp
  have "x / 2 powi e - of_int m = (x - r) / 2 powi e"
    using assms(4) p by (simp add: field_simps)
  then have "\<bar>x / 2 powi e - of_int m\<bar> = \<bar>x - r\<bar> / 2 powi e"
    using p by (simp add: abs_divide)
  also have "\<dots> = 1 / 2"
    using assms(6) p by (simp add: field_simps)
  finally have "round_half_even (x / 2 powi e) = m"
    using assms(5) by (intro round_half_even_tie)
  then show ?thesis
    using x0 e assms(4) by (simp add: round_double_def)
qed

lemma round_half_even_of_int: "round_half_even (of_int n) = n"
  by (simp add: round_half_even_def)

lemma round_double_representable:
  assumes "x = of_int m * 2 powi j" and "\<bar>m\<bar> < 2 ^ 53" and "- 1074 \<le> j"
  shows "round_double x = x"
proof (cases "x = 0")
  case True
  then show ?thesis by (simp add: round_double_def)
next
  case False
  define e where "e = double_exponent x"
  have pos: "0 < \<bar>x\<bar>" using False by simp
  have "e \<le> j"
  proof (cases "\<lfloor>log 2 \<bar>x\<bar>\<rfloor> \<le> - 1022")
    case True
    then show ?thesis using assms(3) by (simp add: e_def double_exponent_def)
  next
    case False
    have "\<bar>x\<bar> = of_int \<bar>m\<bar> * 2 powi j"
      by (simp add: assms(1) abs_mult)
    also have "\<dots> < 2 ^ 53 * 2 powi j"
      using assms(2) by (intro mult_strict_right_mono) (simp_all add: of_int_less_iff [where 'a = real, symmetric] del: of_int_less_iff)
    also have "\<dots> = 2 powi (53 + j)"
      by (simp add: power_int_add)
    finally have "\<bar>x\<bar> < 2 powi (53 + j)" .
    moreover have "(2::real) powr (of_int (53 + j)) = 2 powi (53 + j)"
      by (rule powr_real_of_int') simp_all
    ultimately have "\<bar>x\<bar> < 2 powr (of_int (53 + j))"
      by (simp only:)
    then have "log 2 \<bar>x\<bar> < of_int (53 + j)"
      using pos by (simp add: log_less_iff)
    then have "\<lfloor>log 2 \<bar>x\<bar>\<rfloor> < 53 + j"
      by (simp add: floor_less_iff)
    with False show ?thesis
      by (simp add: e_def double_exponent_def)
  qed
  then obtain d where d: "j = e + int d"
    by (metis zle_iff_zadd)
  have "x / 2 powi e = of_int m * 2 ^ d"
    by (simp add: assms(1) d power_int_add)
  also have "\<dots> = of_int (m * 2 ^ d)"
    by simp
  finally have "round_half_even (x / 2 powi e) = m * 2 ^ d"
    by (simp only: round_half_even_of_int)
  then have "round_double x = of_int (m * 2 ^ d) * 2 powi e"
    using False by (simp add: round_double_def e_def)
  also have "\<dots> = x"
    by (simp add: assms(1) d power_int_add)
  finally show ?thesis .
qed

lemma finite_double_small: "\<bar>r\<bar> < 2 ^ 53 \<Longrightarrow> finite_double r = Some r"
proof -
  assume "\<bar>r\<bar> < 2 ^ 53"
  moreover have "(2::real) ^ 53 \<le> 2 ^ 1024"
    by (rule power_increasing) simp_all
  ultimately show ?thesis
    by (simp add: finite_double_def)
qed

lemma round_double_grid:
  assumes "x * 2 ^ t \<in> \<int>" and "\<bar>x\<bar> * 2 ^ t < 2 ^ 53" and "t \<le> 1074"
  shows "round_double x = x" and "finite_double x = Some x"
proof -
  from assms(1) obtain m where m: "x * 2 ^ t = of_int m" by (auto elim: Ints_cases)
  have "real_of_int \<bar>m\<bar> = \<bar>x\<bar> * 2 ^ t"
    using m by (simp add: abs_mult flip: m)
  with assms(2) have "real_of_int \<bar>m\<bar> < real_of_int (2 ^ 53)" by simp
  then have mb: "\<bar>m\<bar> < 2 ^ 53" by (simp only: of_int_less_iff)
  have "x = x * 2 ^ t * 2 powi (- int t)"
    by (simp add: power_int_minus)
  then have x: "x = of_int m * 2 powi (- int t)"
    by (simp only: m)
  from assms(3) have "- 1074 \<le> - int t" by simp
  with x mb show "round_double x = x"
    by (rule round_double_representable)
  have "\<bar>x\<bar> * 1 \<le> \<bar>x\<bar> * 2 ^ t"
    by (intro mult_left_mono) simp_all
  with assms(2) have "\<bar>x\<bar> < 2 ^ 53" by simp
  then show "finite_double x = Some x"
    by (rule finite_double_small)
qed

lemma grid_mult:
  fixes a b :: real
  assumes "a * 2 ^ s \<in> \<int>" and "b * 2 ^ s \<in> \<int>"
  shows "(a * b) * 2 ^ (2 * s) \<in> \<int>"
proof -
  have "(2::real) ^ (2 * s) = 2 ^ s * 2 ^ s"
    by (simp add: mult_2 power_add)
  then have eq: "(a * b) * 2 ^ (2 * s) = (a * 2 ^ s) * (b * 2 ^ s)"
    by (simp only: mult_ac)
  have "(a * 2 ^ s) * (b * 2 ^ s) \<in> \<int>"
    using assms by (rule Ints_mult)
  then show ?thesis
    by (simp only: eq)
qed

lemma double_mul_grid:
  assumes "a * 2 ^ s \<in> \<int>" and "b * 2 ^ s \<in> \<int>"
    and "\<bar>a * b\<bar> * 2 ^ (2 * s) < 2 ^ 53" and "2 * s \<le> 1074"
  shows "double_mul a b = Some (a * b)"
proof -
  from round_double_grid [OF grid_mult [OF assms(1,2)] assms(3,4)]
  have "round_double (a * b) = a * b" and "finite_double (a * b) = Some (a * b)" .
  then show ?thesis
    by (simp only: double_mul_def)
qed

lemma double_add_grid:
  assumes "a * 2 ^ t \<in> \<int>" and "b * 2 ^ t \<in> \<int>"
    and "\<bar>a + b\<bar> * 2 ^ t < 2 ^ 53" and "t \<le> 1074"
  shows "double_add a b = Some (a + b)"
proof -
  have "(a + b) * 2 ^ t \<in> \<int>"
    using assms(1,2) by (simp add: distrib_right)
  from round_double_grid [OF this assms(3,4)]
  have "round_double (a + b) = a + b" and "finite_double (a + b) = Some (a + b)" .
  then show ?thesis
    by (simp only: double_add_def)
qed

lemma double_sub_grid:
  assumes "a * 2 ^ t \<in> \<int>" and "b * 2 ^ t \<in> \<int>"
    and "\<bar>a - b\<bar> * 2 ^ t < 2 ^ 53" and "t \<le> 1074"
  shows "double_sub a b = Some (a - b)"
proof -
  have "(a - b) * 2 ^ t \<in> \<int>"
    using assms(1,2) by (simp add: left_diff_distrib)
  from round_double_grid [OF this assms(3,4)]
  have "round_double (a - b) = a - b" and "finite_double (a - b) = Some (a - b)" .
  then show ?thesis
    by (simp only: double_sub_def)
qed

lemma double_div_2_grid:
  assumes "a * 2 ^ t \<in> \<int>" and "\<bar>a\<bar> * 2 ^ t < 2 ^ 53" and "t < 1074"
  shows "double_div a 2 = Some (a / 2)"
proof -
  have "(a / 2) * 2 ^ Suc t \<in> \<int>" "\<bar>a / 2\<bar> * 2 ^ Suc t < 2 ^ 53" "Suc t \<le> 1074"
    using assms by simp_all
  from round_double_grid [OF this] have "round_double (a / 2) = a / 2"
    and "finite_double (a / 2) = Some (a / 2)" .
  then show ?thesis
    by (simp only: double_div_def)
qed

section \<open>Coordinates on a binary grid: no operation of calculateArea rounds\<close>

lemma calculateArea_double_loop_grid:
  assumes "\<forall>p \<in> set ps. px p * 2 ^ s \<in> \<int> \<and> py p * 2 ^ s \<in> \<int> \<and> \<bar>px p\<bar> \<le> B \<and> \<bar>py p\<bar> \<le> B"
    and "2 * real (length ps) * B\<^sup>2 * 2 ^ (2 * s) < 2 ^ 53"
    and "s \<le> 536"
    and "i \<le> length ps" and "a * 2 ^ (2 * s) \<in> \<int>" and "\<bar>a\<bar> \<le> 2 * real i * B\<^sup>2"
  shows "calculateArea_double_loop ps i a = Some (calculateArea_loop ps i a)
         \<and> calculateArea_loop ps i a * 2 ^ (2 * s) \<in> \<int>
         \<and> \<bar>calculateArea_loop ps i a\<bar> \<le> 2 * real (length ps) * B\<^sup>2"
  using assms
proof (induction ps i a rule: calculateArea_loop.induct)
  case (1 ps i a)
  note coords = "1.prems"(1) and bound = "1.prems"(2) and s = "1.prems"(3)
  define Q where "Q = B\<^sup>2"
  define W :: real where "W = 2 ^ (2 * s)"
  have Q0: "0 \<le> Q" by (simp add: Q_def)
  have W0: "0 \<le> W" by (simp add: W_def)
  have t: "2 * s \<le> 1074" using s by simp
  have nQW: "(2 * (real (length ps) * Q)) * W < 2 ^ 53"
    using bound by (simp add: Q_def W_def mult.assoc)
  have small: "\<bar>v\<bar> * 2 ^ (2 * s) < 2 ^ 53" if "\<bar>v\<bar> \<le> 2 * (real (length ps) * Q)" for v
  proof -
    from that W0 have "\<bar>v\<bar> * W \<le> (2 * (real (length ps) * Q)) * W"
      by (rule mult_right_mono)
    from this nQW have "\<bar>v\<bar> * W < 2 ^ 53" by (rule le_less_trans)
    then show ?thesis by (simp only: W_def)
  qed
  show ?case
  proof (cases "i < length ps")
    case False
    with "1.prems" have "i = length ps" by simp
    with "1.prems" show ?thesis
      by (subst calculateArea_double_loop.simps, subst (1 2 3) calculateArea_loop.simps) simp
  next
    case True
    define j where "j = (i + 1) mod length ps"
    from True have "0 < length ps" by auto
    then have j: "j < length ps" unfolding j_def by (rule mod_less_divisor)
    from True j coords nth_mem [of i ps] nth_mem [of j ps]
    have pi: "px (ps ! i) * 2 ^ s \<in> \<int>" "py (ps ! i) * 2 ^ s \<in> \<int>"
        "\<bar>px (ps ! i)\<bar> \<le> B" "\<bar>py (ps ! i)\<bar> \<le> B"
      and pj: "px (ps ! j) * 2 ^ s \<in> \<int>" "py (ps ! j) * 2 ^ s \<in> \<int>"
        "\<bar>px (ps ! j)\<bar> \<le> B" "\<bar>py (ps ! j)\<bar> \<le> B"
      by simp_all
    define p1 where "p1 = px (ps ! i) * py (ps ! j)"
    define p2 where "p2 = px (ps ! j) * py (ps ! i)"
    have p1g: "p1 * 2 ^ (2 * s) \<in> \<int>"
      unfolding p1_def using pi(1) pj(2) by (rule grid_mult)
    have p2g: "p2 * 2 ^ (2 * s) \<in> \<int>"
      unfolding p2_def using pj(1) pi(2) by (rule grid_mult)
    have p1: "\<bar>p1\<bar> \<le> Q"
      using pi pj by (simp add: p1_def Q_def abs_mult power2_eq_square mult_mono)
    have p2: "\<bar>p2\<bar> \<le> Q"
      using pi pj by (simp add: p2_def Q_def abs_mult power2_eq_square mult_mono)
    have "real (i + 1) * Q \<le> real (length ps) * Q"
      using True Q0 by (intro mult_right_mono) simp_all
    then have iQ: "real i * Q + Q \<le> real (length ps) * Q"
      by (simp add: algebra_simps)
    have iQ0: "0 \<le> real i * Q" using Q0 by simp
    have a: "\<bar>a\<bar> \<le> 2 * (real i * Q)"
      using "1.prems" by (simp add: Q_def)
    have ag: "a * 2 ^ (2 * s) \<in> \<int>" using "1.prems" by simp
    have a1g: "(a + p1) * 2 ^ (2 * s) \<in> \<int>"
      using ag p1g by (simp add: distrib_right)
    have a2g: "(a + p1 - p2) * 2 ^ (2 * s) \<in> \<int>"
      using a1g p2g by (simp add: left_diff_distrib)
    have "\<bar>p1\<bar> \<le> 2 * (real (length ps) * Q)" using p1 iQ Q0 iQ0 by linarith
    then have p1b: "\<bar>px (ps ! i) * py (ps ! j)\<bar> * 2 ^ (2 * s) < 2 ^ 53"
      unfolding p1_def by (rule small)
    have "\<bar>p2\<bar> \<le> 2 * (real (length ps) * Q)" using p2 iQ Q0 iQ0 by linarith
    then have p2b: "\<bar>px (ps ! j) * py (ps ! i)\<bar> * 2 ^ (2 * s) < 2 ^ 53"
      unfolding p2_def by (rule small)
    have "\<bar>a + p1\<bar> \<le> 2 * (real (length ps) * Q)" using p1 a iQ Q0 by linarith
    then have a1b: "\<bar>a + p1\<bar> * 2 ^ (2 * s) < 2 ^ 53" by (rule small)
    have a2q: "\<bar>a + p1 - p2\<bar> \<le> 2 * (real i * Q) + Q + Q" using p1 p2 a by linarith
    then have "\<bar>a + p1 - p2\<bar> \<le> 2 * (real (length ps) * Q)" using iQ by linarith
    then have a2b: "\<bar>a + p1 - p2\<bar> * 2 ^ (2 * s) < 2 ^ 53" by (rule small)
    from a2q have a2c: "\<bar>a + p1 - p2\<bar> \<le> 2 * real (i + 1) * B\<^sup>2"
      by (simp add: Q_def algebra_simps)
    have m1: "double_mul (px (ps ! i)) (py (ps ! j)) = Some p1"
      unfolding p1_def using pi(1) pj(2) p1b t by (rule double_mul_grid)
    have m2: "double_mul (px (ps ! j)) (py (ps ! i)) = Some p2"
      unfolding p2_def using pj(1) pi(2) p2b t by (rule double_mul_grid)
    have s1: "double_add a p1 = Some (a + p1)"
      using ag p1g a1b t by (rule double_add_grid)
    have s2: "double_sub (a + p1) p2 = Some (a + p1 - p2)"
      using a1g p2g a2b t by (rule double_sub_grid)
    have stepd: "calculateArea_double_loop ps i a
                 = calculateArea_double_loop ps (i + 1) (a + p1 - p2)"
      using True m1 m2 s1 s2 unfolding j_def
      by (subst calculateArea_double_loop.simps) (simp add: Let_def)
    have stepr: "calculateArea_loop ps i a = calculateArea_loop ps (i + 1) (a + p1 - p2)"
      using True unfolding p1_def p2_def j_def
      by (subst calculateArea_loop.simps) (simp add: Let_def)
    have "calculateArea_double_loop ps (i + 1) (a + p1 - p2)
            = Some (calculateArea_loop ps (i + 1) (a + p1 - p2))
          \<and> calculateArea_loop ps (i + 1) (a + p1 - p2) * 2 ^ (2 * s) \<in> \<int>
          \<and> \<bar>calculateArea_loop ps (i + 1) (a + p1 - p2)\<bar> \<le> 2 * real (length ps) * B\<^sup>2"
      using True a2g a2c coords bound s
      by (intro "1.IH" [where x = j and xa = "a + p1" and xb = "a + p1 - p2"])
         (simp_all add: j_def p1_def p2_def)
    then show ?thesis
      by (simp only: stepd stepr)
  qed
qed

lemma calculateArea_double_grid:
  assumes "\<forall>p \<in> set ps. px p * 2 ^ s \<in> \<int> \<and> py p * 2 ^ s \<in> \<int> \<and> \<bar>px p\<bar> \<le> B \<and> \<bar>py p\<bar> \<le> B"
    and "2 * real (length ps) * B\<^sup>2 * 2 ^ (2 * s) < 2 ^ 53"
    and "s \<le> 536"
  shows "calculateArea_double ps = Some (calculateArea ps)"
proof (cases "length ps < 3")
  case True
  then show ?thesis by (simp add: calculateArea_double_def calculateArea_def)
next
  case False
  define L where "L = calculateArea_loop ps 0 0"
  have "calculateArea_double_loop ps 0 0 = Some L
        \<and> L * 2 ^ (2 * s) \<in> \<int> \<and> \<bar>L\<bar> \<le> 2 * real (length ps) * B\<^sup>2"
    unfolding L_def using assms by (intro calculateArea_double_loop_grid) simp_all
  then have loop: "calculateArea_double_loop ps 0 0 = Some L"
    and Lg: "L * 2 ^ (2 * s) \<in> \<int>" and Lb: "\<bar>L\<bar> \<le> 2 * real (length ps) * B\<^sup>2"
    by simp_all
  have "\<bar>L\<bar> * 2 ^ (2 * s) \<le> (2 * real (length ps) * B\<^sup>2) * 2 ^ (2 * s)"
    using Lb by (rule mult_right_mono) simp
  from this assms(2) have "\<bar>L\<bar> * 2 ^ (2 * s) < 2 ^ 53" by (rule le_less_trans)
  moreover have "2 * s < 1074" using assms(3) by simp
  ultimately have "double_div L 2 = Some (L / 2)"
    using Lg by (intro double_div_2_grid)
  with loop False show ?thesis
    by (simp add: calculateArea_double_def calculateArea_def L_def)
qed

lemma calculateArea_rev_exact: "calculateArea (rev ps) = calculateArea ps"
  by (simp add: calculateArea_def calculateArea_loop_ShoelaceSum ShoelaceSum_rev)

section \<open>Area\<close>



text \<open>
  C10. The two variants compute the same area: for every list of points,
  \<open>calculateArea\<close> of part_000 returns what \<open>calculateArea\<close> of App.jsx returns.
\<close>

theorem calculateArea_variants_agree: "calculateArea_v0 ps = calculateArea ps"
  by (simp add: calculateArea_v0_def calculateArea_def calculateArea_v0_loop_eq)

text \<open>
  C7, as the specification states it, fails on the code. The doubles nearest to
  \<open>0.1\<close> and \<open>0.2\<close> are \<open>3602879701896397 / 2 ^ 55\<close> and \<open>3602879701896397 / 2 ^ 54\<close>.
  For the triangle \<open>(0, 0.1), (0.1, 0.1), (0.2, 1)\<close> with these doubles as coordinates,
  \<open>calculateArea_double\<close> returns \<open>3242591731706757 / 2 ^ 56\<close> (printed
  \<^verbatim>\<open>0.045\<close>), and for the reversed list \<open>6485183463413515 / 2 ^ 57\<close> (printed
  \<^verbatim>\<open>0.045000000000000005\<close>), one unit in the last place more: the two orders of
  summation round differently.
\<close>

theorem calculateArea_double_rev_differs:
  "calculateArea_double
     [\<lparr>px = 0, py = 3602879701896397 / 36028797018963968\<rparr>,
      \<lparr>px = 3602879701896397 / 36028797018963968, py = 3602879701896397 / 36028797018963968\<rparr>,
      \<lparr>px = 3602879701896397 / 18014398509481984, py = 1\<rparr>]
     = Some (3242591731706757 / 72057594037927936)
   \<and> calculateArea_double (rev
     [\<lparr>px = 0, py = 3602879701896397 / 36028797018963968\<rparr>,
      \<lparr>px = 3602879701896397 / 36028797018963968, py = 3602879701896397 / 36028797018963968\<rparr>,
      \<lparr>px = 3602879701896397 / 18014398509481984, py = 1\<rparr>])
     = Some (6485183463413515 / 144115188075855872)
   \<and> calculateArea_double (rev
     [\<lparr>px = 0, py = 3602879701896397 / 36028797018963968\<rparr>,
      \<lparr>px = 3602879701896397 / 36028797018963968, py = 3602879701896397 / 36028797018963968\<rparr>,
      \<lparr>px = 3602879701896397 / 18014398509481984, py = 1\<rparr>])
     \<noteq> calculateArea_double
     [\<lparr>px = 0, py = 3602879701896397 / 36028797018963968\<rparr>,
      \<lparr>px = 3602879701896397 / 36028797018963968, py = 3602879701896397 / 36028797018963968\<rparr>,
      \<lparr>px = 3602879701896397 / 18014398509481984, py = 1\<rparr>]
   \<and> round_double (3602879701896397 / 36028797018963968) = 3602879701896397 / 36028797018963968
   \<and> round_double (3602879701896397 / 18014398509481984) = 3602879701896397 / 18014398509481984"
proof -
  let ?ps = "[\<lparr>px = 0, py = 3602879701896397 / 36028797018963968\<rparr>,
             \<lparr>px = 3602879701896397 / 36028797018963968, py = 3602879701896397 / 36028797018963968\<rparr>,
             \<lparr>px = 3602879701896397 / 18014398509481984, py = 1\<rparr>]"
  let ?qs = "[\<lparr>px = 3602879701896397 / 18014398509481984, py = 1\<rparr>,
             \<lparr>px = 3602879701896397 / 36028797018963968, py = 3602879701896397 / 36028797018963968\<rparr>,
             \<lparr>px = 0, py = 3602879701896397 / 36028797018963968\<rparr>]"
  have r1: "round_double (0 * (3602879701896397 / 36028797018963968)) = 0"
    by (simp add: round_double_def)
  have o1: "double_mul 0 (3602879701896397 / 36028797018963968)
             = Some 0"
    unfolding double_mul_def r1 by (simp add: finite_double_def)
  have r2: "round_double (0 + 0) = 0"
    by (simp add: round_double_def)
  have o2: "double_add 0 0
             = Some 0"
    unfolding double_add_def r2 by (simp add: finite_double_def)
  have r3: "round_double ((3602879701896397 / 36028797018963968) * (3602879701896397 / 36028797018963968))
             = 1441151880758559 / 144115188075855872"
    by (rule round_double_nearestI [where k = "- 7" and e = "- 59" and m = "5764607523034236"])
       (simp_all add: power_int_minus)
  have o3: "double_mul (3602879701896397 / 36028797018963968) (3602879701896397 / 36028797018963968)
             = Some (1441151880758559 / 144115188075855872)"
    unfolding double_mul_def r3 by (simp add: finite_double_def)
  have r4: "round_double (0 - (1441151880758559 / 144115188075855872))
             = - (1441151880758559 / 144115188075855872)"
    by (rule round_double_nearestI [where k = "- 7" and e = "- 59" and m = "- 5764607523034236"])
       (simp_all add: power_int_minus)
  have o4: "double_sub 0 (1441151880758559 / 144115188075855872)
             = Some (- (1441151880758559 / 144115188075855872))"
    unfolding double_sub_def r4 by (simp add: finite_double_def)
  have r5: "round_double ((3602879701896397 / 36028797018963968) * 1)
             = 3602879701896397 / 36028797018963968"
    by (rule round_double_nearestI [where k = "- 4" and e = "- 56" and m = "7205759403792794"])
       (simp_all add: power_int_minus)
  have o5: "double_mul (3602879701896397 / 36028797018963968) 1
             = Some (3602879701896397 / 36028797018963968)"
    unfolding double_mul_def r5 by (simp add: finite_double_def)
  have r6: "round_double ((- (1441151880758559 / 144115188075855872)) + (3602879701896397 / 36028797018963968))
             = 3242591731706757 / 36028797018963968"
    by (rule round_double_tieI [where k = "- 4" and e = "- 56" and m = "6485183463413514"])
       (simp_all add: power_int_minus)
  have o6: "double_add (- (1441151880758559 / 144115188075855872)) (3602879701896397 / 36028797018963968)
             = Some (3242591731706757 / 36028797018963968)"
    unfolding double_add_def r6 by (simp add: finite_double_def)
  have r7: "round_double ((3602879701896397 / 18014398509481984) * (3602879701896397 / 36028797018963968))
             = 1441151880758559 / 72057594037927936"
    by (rule round_double_nearestI [where k = "- 6" and e = "- 58" and m = "5764607523034236"])
       (simp_all add: power_int_minus)
  have o7: "double_mul (3602879701896397 / 18014398509481984) (3602879701896397 / 36028797018963968)
             = Some (1441151880758559 / 72057594037927936)"
    unfolding double_mul_def r7 by (simp add: finite_double_def)
  have r8: "round_double ((3242591731706757 / 36028797018963968) - (1441151880758559 / 72057594037927936))
             = 5044031582654955 / 72057594037927936"
    by (rule round_double_nearestI [where k = "- 4" and e = "- 56" and m = "5044031582654955"])
       (simp_all add: power_int_minus)
  have o8: "double_sub (3242591731706757 / 36028797018963968) (1441151880758559 / 72057594037927936)
             = Some (5044031582654955 / 72057594037927936)"
    unfolding double_sub_def r8 by (simp add: finite_double_def)
  have r9: "round_double ((5044031582654955 / 72057594037927936) + (1441151880758559 / 72057594037927936))
             = 3242591731706757 / 36028797018963968"
    by (rule round_double_nearestI [where k = "- 4" and e = "- 56" and m = "6485183463413514"])
       (simp_all add: power_int_minus)
  have o9: "double_add (5044031582654955 / 72057594037927936) (1441151880758559 / 72057594037927936)
             = Some (3242591731706757 / 36028797018963968)"
    unfolding double_add_def r9 by (simp add: finite_double_def)
  have r10: "round_double (0 * 1) = 0"
    by (simp add: round_double_def)
  have o10: "double_mul 0 1
             = Some 0"
    unfolding double_mul_def r10 by (simp add: finite_double_def)
  have r11: "round_double ((3242591731706757 / 36028797018963968) - 0)
             = 3242591731706757 / 36028797018963968"
    by (rule round_double_nearestI [where k = "- 4" and e = "- 56" and m = "6485183463413514"])
       (simp_all add: power_int_minus)
  have o11: "double_sub (3242591731706757 / 36028797018963968) 0
             = Some (3242591731706757 / 36028797018963968)"
    unfolding double_sub_def r11 by (simp add: finite_double_def)
  have r12: "round_double ((3242591731706757 / 36028797018963968) / 2)
             = 3242591731706757 / 72057594037927936"
    by (rule round_double_nearestI [where k = "- 5" and e = "- 57" and m = "6485183463413514"])
       (simp_all add: power_int_minus)
  have o12: "double_div (3242591731706757 / 36028797018963968) 2
             = Some (3242591731706757 / 72057594037927936)"
    unfolding double_div_def r12 by (simp add: finite_double_def)
  have r13: "round_double (0 + (1441151880758559 / 72057594037927936))
             = 1441151880758559 / 72057594037927936"
    by (rule round_double_nearestI [where k = "- 6" and e = "- 58" and m = "5764607523034236"])
       (simp_all add: power_int_minus)
  have o13: "double_add 0 (1441151880758559 / 72057594037927936)
             = Some (1441151880758559 / 72057594037927936)"
    unfolding double_add_def r13 by (simp add: finite_double_def)
  have r14: "round_double ((1441151880758559 / 72057594037927936) - (3602879701896397 / 36028797018963968))
             = - (5764607523034235 / 72057594037927936)"
    by (rule round_double_nearestI [where k = "- 4" and e = "- 56" and m = "- 5764607523034235"])
       (simp_all add: power_int_minus)
  have o14: "double_sub (1441151880758559 / 72057594037927936) (3602879701896397 / 36028797018963968)
             = Some (- (5764607523034235 / 72057594037927936))"
    unfolding double_sub_def r14 by (simp add: finite_double_def)
  have r15: "round_double ((- (5764607523034235 / 72057594037927936)) + (1441151880758559 / 144115188075855872))
             = - (1261007895663739 / 18014398509481984)"
    by (rule round_double_tieI [where k = "- 4" and e = "- 56" and m = "- 5044031582654956"])
       (simp_all add: power_int_minus)
  have o15: "double_add (- (5764607523034235 / 72057594037927936)) (1441151880758559 / 144115188075855872)
             = Some (- (1261007895663739 / 18014398509481984))"
    unfolding double_add_def r15 by (simp add: finite_double_def)
  have r16: "round_double ((- (1261007895663739 / 18014398509481984)) - 0)
             = - (1261007895663739 / 18014398509481984)"
    by (rule round_double_nearestI [where k = "- 4" and e = "- 56" and m = "- 5044031582654956"])
       (simp_all add: power_int_minus)
  have o16: "double_sub (- (1261007895663739 / 18014398509481984)) 0
             = Some (- (1261007895663739 / 18014398509481984))"
    unfolding double_sub_def r16 by (simp add: finite_double_def)
  have r17: "round_double ((- (1261007895663739 / 18014398509481984)) + 0)
             = - (1261007895663739 / 18014398509481984)"
    by (rule round_double_nearestI [where k = "- 4" and e = "- 56" and m = "- 5044031582654956"])
       (simp_all add: power_int_minus)
  have o17: "double_add (- (1261007895663739 / 18014398509481984)) 0
             = Some (- (1261007895663739 / 18014398509481984))"
    unfolding double_add_def r17 by (simp add: finite_double_def)
  have r18: "round_double ((- (1261007895663739 / 18014398509481984)) - (1441151880758559 / 72057594037927936))
             = - (6485183463413515 / 72057594037927936)"
    by (rule round_double_nearestI [where k = "- 4" and e = "- 56" and m = "- 6485183463413515"])
       (simp_all add: power_int_minus)
  have o18: "double_sub (- (1261007895663739 / 18014398509481984)) (1441151880758559 / 72057594037927936)
             = Some (- (6485183463413515 / 72057594037927936))"
    unfolding double_sub_def r18 by (simp add: finite_double_def)
  have r19: "round_double ((- (6485183463413515 / 72057594037927936)) / 2)
             = - (6485183463413515 / 144115188075855872)"
    by (rule round_double_nearestI [where k = "- 5" and e = "- 57" and m = "- 6485183463413515"])
       (simp_all add: power_int_minus)
  have o19: "double_div (- (6485183463413515 / 72057594037927936)) 2
             = Some (- (6485183463413515 / 144115188075855872))"
    unfolding double_div_def r19 by (simp add: finite_double_def)
  have r20: "round_double (3602879701896397 / 36028797018963968)
             = 3602879701896397 / 36028797018963968"
    by (rule round_double_nearestI [where k = "- 4" and e = "- 56" and m = "7205759403792794"])
       (simp_all add: power_int_minus)
  have r21: "round_double (3602879701896397 / 18014398509481984)
             = 3602879701896397 / 18014398509481984"
    by (rule round_double_nearestI [where k = "- 3" and e = "- 55" and m = "7205759403792794"])
       (simp_all add: power_int_minus)
  have f3: "calculateArea_double_loop ?ps 3 (3242591731706757 / 36028797018963968)
             = Some (3242591731706757 / 36028797018963968)"
    by (subst calculateArea_double_loop.simps) simp
  have f2: "calculateArea_double_loop ?ps 2 (5044031582654955 / 72057594037927936)
             = Some (3242591731706757 / 36028797018963968)"
    by (subst calculateArea_double_loop.simps)
       (simp add: Let_def o7 o9 o10 o11 f3)
  have f1: "calculateArea_double_loop ?ps 1 (- (1441151880758559 / 144115188075855872))
             = Some (3242591731706757 / 36028797018963968)"
    by (subst calculateArea_double_loop.simps)
       (simp add: Let_def o5 o6 o7 o8 f2 [unfolded numeral_2_eq_2])
  have f0: "calculateArea_double_loop ?ps 0 0
             = Some (3242591731706757 / 36028797018963968)"
    by (subst calculateArea_double_loop.simps)
       (simp add: Let_def o1 o2 o3 o4 f1 [unfolded One_nat_def])
  have b3: "calculateArea_double_loop ?qs 3 (- (6485183463413515 / 72057594037927936))
             = Some (- (6485183463413515 / 72057594037927936))"
    by (subst calculateArea_double_loop.simps) simp
  have b2: "calculateArea_double_loop ?qs 2 (- (1261007895663739 / 18014398509481984))
             = Some (- (6485183463413515 / 72057594037927936))"
    by (subst calculateArea_double_loop.simps)
       (simp add: Let_def o10 o17 o7 o18 b3)
  have b1: "calculateArea_double_loop ?qs 1 (- (5764607523034235 / 72057594037927936))
             = Some (- (6485183463413515 / 72057594037927936))"
    by (subst calculateArea_double_loop.simps)
       (simp add: Let_def o3 o15 o1 o16 b2 [unfolded numeral_2_eq_2])
  have b0: "calculateArea_double_loop ?qs 0 0
             = Some (- (6485183463413515 / 72057594037927936))"
    by (subst calculateArea_double_loop.simps)
       (simp add: Let_def o7 o13 o5 o14 b1 [unfolded One_nat_def])
  have fwd: "calculateArea_double ?ps = Some (3242591731706757 / 72057594037927936)"
    by (simp add: calculateArea_double_def f0 o12)
  have bwd: "calculateArea_double ?qs = Some (6485183463413515 / 144115188075855872)"
    by (simp add: calculateArea_double_def b0 o19)
  have rv: "rev ?ps = ?qs"
    by simp
  show ?thesis
    unfolding rv fwd bwd using r20 r21 by simp
qed

text \<open>
  C7, amended. If every coordinate is a multiple of \<open>2\<close> to the power \<open>- s\<close>
  (\<open>s = 0\<close>: whole pixels; \<open>s\<close> at most \<open>536\<close>) of magnitude at most \<open>B\<close>, and
  \<open>2 * n * B\<^sup>2 * 4 ^ s < 2 ^ 53\<close> for the number \<open>n\<close> of points, then no operation of
  the loop rounds: the area the code computes in doubles is the exact Shoelace area,
  and reversing the vertex order yields the same value.
\<close>

theorem calculateArea_double_rev:
  assumes "\<forall>p \<in> set ps. px p * 2 ^ s \<in> \<int> \<and> py p * 2 ^ s \<in> \<int> \<and> \<bar>px p\<bar> \<le> B \<and> \<bar>py p\<bar> \<le> B"
    and "2 * real (length ps) * B\<^sup>2 * 2 ^ (2 * s) < 2 ^ 53"
    and "s \<le> 536"
  shows "calculateArea_double ps = Some (calculateArea ps)
       \<and> calculateArea_double (rev ps) = calculateArea_double ps"
proof -
  have fwd: "calculateArea_double ps = Some (calculateArea ps)"
    using assms by (rule calculateArea_double_grid)
  have "calculateArea_double (rev ps) = Some (calculateArea (rev ps))"
    using assms by (intro calculateArea_double_grid [where B = B and s = s]) simp_all
  with fwd show ?thesis
    by (simp add: calculateArea_rev_exact)
qed

theorem calculateArea_double_rev_witness:
  "calculateArea_double [\<lparr>px = 0, py = 0\<rparr>, \<lparr>px = 4, py = 0\<rparr>,
                          \<lparr>px = 4, py = 4\<rparr>, \<lparr>px = 0, py = 4\<rparr>] = Some 16
   \<and> calculateArea_double (rev [\<lparr>px = 0, py = 0\<rparr>, \<lparr>px = 4, py = 0\<rparr>,
                          \<lparr>px = 4, py = 4\<rparr>, \<lparr>px = 0, py = 4\<rparr>]) = Some 16
   \<and> calculateArea_double [\<lparr>px = 1 / 2, py = 1 / 2\<rparr>, \<lparr>px = 9 / 2, py = 1 / 2\<rparr>,
                          \<lparr>px = 1 / 2, py = 7 / 2\<rparr>] = Some 6
   \<and> calculateArea_double (rev [\<lparr>px = 1 / 2, py = 1 / 2\<rparr>, \<lparr>px = 9 / 2, py = 1 / 2\<rparr>,
                          \<lparr>px = 1 / 2, py = 7 / 2\<rparr>]) = Some 6"
proof -
  let ?sq = "[\<lparr>px = 0, py = 0\<rparr>, \<lparr>px = 4, py = 0\<rparr>, \<lparr>px = 4, py = 4\<rparr>, \<lparr>px = 0, py = 4\<rparr>]"
  let ?tr = "[\<lparr>px = 1 / 2, py = 1 / 2\<rparr>, \<lparr>px = 9 / 2, py = 1 / 2\<rparr>, \<lparr>px = 1 / 2, py = 7 / 2\<rparr>]"
  have q1: "\<forall>p \<in> set ?sq. px p * 2 ^ 0 \<in> \<int> \<and> py p * 2 ^ 0 \<in> \<int> \<and> \<bar>px p\<bar> \<le> 4 \<and> \<bar>py p\<bar> \<le> 4"
    by simp
  have q2: "2 * real (length ?sq) * 4\<^sup>2 * 2 ^ (2 * 0) < 2 ^ 53" by simp
  have q3: "(0::nat) \<le> 536" by simp
  have t1: "\<forall>p \<in> set ?tr. px p * 2 ^ 1 \<in> \<int> \<and> py p * 2 ^ 1 \<in> \<int> \<and> \<bar>px p\<bar> \<le> 5 \<and> \<bar>py p\<bar> \<le> 5"
    by simp
  have t2: "2 * real (length ?tr) * 5\<^sup>2 * 2 ^ (2 * 1) < 2 ^ 53" by simp
  have t3: "(1::nat) \<le> 536" by simp
  have sq: "calculateArea ?sq = 16"
    by (simp add: calculateArea_def calculateArea_loop.simps Let_def)
  have tr: "calculateArea ?tr = 6"
    by (simp add: calculateArea_def calculateArea_loop.simps Let_def)
  from calculateArea_double_rev [OF q1 q2 q3] calculateArea_double_rev [OF t1 t2 t3]
  show ?thesis
    by (simp add: sq tr)
qed

section \<open>Closing the chain\<close>

text \<open>
  C1, as the specification states it, fails on both variants: with the chain
  \<open>(0,0), (1,1)\<close> and no drag, a click exactly at \<open>(0,0)\<close> appends the two-point
  chain to \<open>polygons\<close> with area \<open>0\<close>, empties \<open>points\<close> and clears \<open>isDrawing\<close>.
\<close>

theorem handleClick_short_chain_finalizes:
  "handleClick
     \<lparr>points = [\<lparr>px = 0, py = 0\<rparr>, \<lparr>px = 1, py = 1\<rparr>], mousePos = None, isDrawing = True,
      polygons = [], draggedPoint = None, hoveredPoint = None, cursorStyle = Crosshair\<rparr> 0 0
   = \<lparr>points = [], mousePos = None, isDrawing = False,
      polygons = [\<lparr>area = 0, poly_points = [\<lparr>px = 0, py = 0\<rparr>, \<lparr>px = 1, py = 1\<rparr>]\<rparr>],
      draggedPoint = None, hoveredPoint = None, cursorStyle = Crosshair\<rparr>
   \<and> handleClick_v0
     \<lparr>points = [\<lparr>px = 0, py = 0\<rparr>, \<lparr>px = 1, py = 1\<rparr>], mousePos = None, isDrawing = True,
      polygons = []\<rparr> 0 0
   = \<lparr>points = [], mousePos = None, isDrawing = False,
      polygons = [\<lparr>area = 0, poly_points = [\<lparr>px = 0, py = 0\<rparr>, \<lparr>px = 1, py = 1\<rparr>]\<rparr>]\<rparr>
   \<and> handleClick
     \<lparr>points = [\<lparr>px = 0, py = 0\<rparr>, \<lparr>px = 1, py = 1\<rparr>], mousePos = None, isDrawing = True,
      polygons = [], draggedPoint = None, hoveredPoint = None, cursorStyle = Crosshair\<rparr> 0 0
   \<noteq> \<lparr>points = [\<lparr>px = 0, py = 0\<rparr>, \<lparr>px = 1, py = 1\<rparr>], mousePos = None, isDrawing = True,
      polygons = [], draggedPoint = None, hoveredPoint = None, cursorStyle = Crosshair\<rparr>"
  by (simp add: handleClick_def handleClick_v0_def distance_le_10_iff
      calculateArea_def calculateArea_v0_def)

text \<open>
  C1, amended. For a chain of one or two points, \<open>handleClick\<close> leaves the state as it
  is when a drag is active or the cursor is farther than \<open>10\<close> from the first point;
  with no drag and the cursor within \<open>10\<close> of the first point it finalizes the short
  chain: the chain is appended to \<open>polygons\<close> with area \<open>0\<close>, \<open>points\<close> becomes
  empty, \<open>mousePos\<close> is cleared and \<open>isDrawing\<close> becomes false. The variant without
  drag editing does the same, with no drag to test.
\<close>

theorem handleClick_short_chain:
  assumes "1 \<le> length (points s)" and "length (points s) < 3"
    and "1 \<le> length (points s0)" and "length (points s0) < 3"
  shows "(draggedPoint s \<noteq> None \<or> distance x y (points s ! 0) > 10 \<longrightarrow> handleClick s x y = s)
       \<and> (draggedPoint s = None \<and> distance x y (points s ! 0) \<le> 10 \<longrightarrow>
            handleClick s x y =
              s\<lparr>points := [],
                polygons := polygons s @ [\<lparr>area = 0, poly_points = points s\<rparr>],
                isDrawing := False, mousePos := None\<rparr>)
       \<and> (distance x y (points s0 ! 0) > 10 \<longrightarrow> handleClick_v0 s0 x y = s0)
       \<and> (distance x y (points s0 ! 0) \<le> 10 \<longrightarrow>
            handleClick_v0 s0 x y =
              s0\<lparr>points := [],
                 polygons := polygons s0 @ [\<lparr>area = 0, poly_points = points s0\<rparr>],
                 isDrawing := False, mousePos := None\<rparr>)"
  using assms
  by (auto simp add: handleClick_def handleClick_v0_def Let_def
      calculateArea_def calculateArea_v0_def)

theorem handleClick_short_chain_witness:
  "length (points \<lparr>points = [\<lparr>px = 0, py = 0\<rparr>, \<lparr>px = 1, py = 1\<rparr>], mousePos = None,
       isDrawing = True, polygons = [], draggedPoint = None, hoveredPoint = None,
       cursorStyle = Crosshair\<rparr>) = 2
   \<and> handleClick
     \<lparr>points = [\<lparr>px = 0, py = 0\<rparr>, \<lparr>px = 1, py = 1\<rparr>], mousePos = None, isDrawing = True,
      polygons = [], draggedPoint = None, hoveredPoint = None, cursorStyle = Crosshair\<rparr> 6 8
   = \<lparr>points = [], mousePos = None, isDrawing = False,
      polygons = [\<lparr>area = 0, poly_points = [\<lparr>px = 0, py = 0\<rparr>, \<lparr>px = 1, py = 1\<rparr>]\<rparr>],
      draggedPoint = None, hoveredPoint = None, cursorStyle = Crosshair\<rparr>
   \<and> handleClick_v0
     \<lparr>points = [\<lparr>px = 0, py = 0\<rparr>, \<lparr>px = 1, py = 1\<rparr>], mousePos = None, isDrawing = True,
      polygons = []\<rparr> 6 9
   = \<lparr>points = [\<lparr>px = 0, py = 0\<rparr>, \<lparr>px = 1, py = 1\<rparr>], mousePos = None, isDrawing = True,
      polygons = []\<rparr>"
  using handleClick_short_chain
    [of "\<lparr>points = [\<lparr>px = 0, py = 0\<rparr>, \<lparr>px = 1, py = 1\<rparr>], mousePos = None,
          isDrawing = True, polygons = [], draggedPoint = None, hoveredPoint = None,
          cursorStyle = Crosshair\<rparr>"
        "\<lparr>points = [\<lparr>px = 0, py = 0\<rparr>, \<lparr>px = 1, py = 1\<rparr>], mousePos = None,
          isDrawing = True, polygons = []\<rparr>" 6 8]
    handleClick_short_chain
    [of "\<lparr>points = [\<lparr>px = 0, py = 0\<rparr>, \<lparr>px = 1, py = 1\<rparr>], mousePos = None,
          isDrawing = True, polygons = [], draggedPoint = None, hoveredPoint = None,
          cursorStyle = Crosshair\<rparr>"
        "\<lparr>points = [\<lparr>px = 0, py = 0\<rparr>, \<lparr>px = 1, py = 1\<rparr>], mousePos = None,
          isDrawing = True, polygons = []\<rparr>" 6 9]
  by (simp add: distance_le_10_iff distance_gt_10_iff)

text \<open>
  C4. For a non-empty chain and no active drag, a click within distance \<open>10\<close> of the
  first point appends the polygon made of the chain's points and
  \<open>calculateArea\<close> of them to \<open>polygons\<close>, empties \<open>points\<close>, clears \<open>mousePos\<close> and
  sets \<open>isDrawing\<close> to false; a click farther than \<open>10\<close> away changes nothing.
\<close>

theorem handleClick_close:
  assumes "points s \<noteq> []" and "draggedPoint s = None"
  shows "(distance x y (points s ! 0) \<le> 10 \<longrightarrow>
            handleClick s x y =
              s\<lparr>points := [],
                polygons := polygons s @
                  [\<lparr>area = calculateArea (points s), poly_points = points s\<rparr>],
                isDrawing := False, mousePos := None\<rparr>)
       \<and> (distance x y (points s ! 0) > 10 \<longrightarrow> handleClick s x y = s)"
  using assms by (auto simp add: handleClick_def Let_def)

theorem handleClick_close_witness:
  "handleClick
     \<lparr>points = [\<lparr>px = 0, py = 0\<rparr>, \<lparr>px = 10, py = 0\<rparr>, \<lparr>px = 10, py = 10\<rparr>],
      mousePos = Some \<lparr>px = 3, py = 3\<rparr>, isDrawing = True,
      polygons = [], draggedPoint = None, hoveredPoint = None, cursorStyle = Crosshair\<rparr> 2 2
   = \<lparr>points = [], mousePos = None, isDrawing = False,
      polygons = [\<lparr>area = 50,
        poly_points = [\<lparr>px = 0, py = 0\<rparr>, \<lparr>px = 10, py = 0\<rparr>, \<lparr>px = 10, py = 10\<rparr>]\<rparr>],
      draggedPoint = None, hoveredPoint = None, cursorStyle = Crosshair\<rparr>
   \<and> handleClick
     \<lparr>points = [\<lparr>px = 0, py = 0\<rparr>, \<lparr>px = 10, py = 0\<rparr>, \<lparr>px = 10, py = 10\<rparr>],
      mousePos = Some \<lparr>px = 3, py = 3\<rparr>, isDrawing = True,
      polygons = [], draggedPoint = None, hoveredPoint = None, cursorStyle = Crosshair\<rparr> 20 20
   = \<lparr>points = [\<lparr>px = 0, py = 0\<rparr>, \<lparr>px = 10, py = 0\<rparr>, \<lparr>px = 10, py = 10\<rparr>],
      mousePos = Some \<lparr>px = 3, py = 3\<rparr>, isDrawing = True,
      polygons = [], draggedPoint = None, hoveredPoint = None, cursorStyle = Crosshair\<rparr>"
  using handleClick_close
    [of "\<lparr>points = [\<lparr>px = 0, py = 0\<rparr>, \<lparr>px = 10, py = 0\<rparr>, \<lparr>px = 10, py = 10\<rparr>],
      mousePos = Some \<lparr>px = 3, py = 3\<rparr>, isDrawing = True,
      polygons = [], draggedPoint = None, hoveredPoint = None, cursorStyle = Crosshair\<rparr>" 2 2]
    handleClick_close
    [of "\<lparr>points = [\<lparr>px = 0, py = 0\<rparr>, \<lparr>px = 10, py = 0\<rparr>, \<lparr>px = 10, py = 10\<rparr>],
      mousePos = Some \<lparr>px = 3, py = 3\<rparr>, isDrawing = True,
      polygons = [], draggedPoint = None, hoveredPoint = None, cursorStyle = Crosshair\<rparr>" 20 20]
  by (simp add: distance_le_10_iff distance_gt_10_iff calculateArea_def
      calculateArea_loop.simps Let_def)

section \<open>Gestures while a drag is active\<close>

text \<open>
  C5, as the specification states it, fails for placing a vertex. From the initial
  state, a right click at \<open>(0,0)\<close> followed by a left press at \<open>(0,0)\<close> starts a drag
  of chain vertex \<open>0\<close>; a right click at \<open>(5,5)\<close> in that state still appends
  \<open>(5,5)\<close> to the chain.
\<close>

theorem handleContextMenu_during_drag:
  "handle initial_state (ContextMenu 0 0)
   = Inr \<lparr>points = [\<lparr>px = 0, py = 0\<rparr>], mousePos = None, isDrawing = True, polygons = [],
          draggedPoint = None, hoveredPoint = None, cursorStyle = Crosshair\<rparr>
   \<and> handle \<lparr>points = [\<lparr>px = 0, py = 0\<rparr>], mousePos = None, isDrawing = True, polygons = [],
          draggedPoint = None, hoveredPoint = None, cursorStyle = Crosshair\<rparr> (MouseDown 0 0 0)
   = Inr \<lparr>points = [\<lparr>px = 0, py = 0\<rparr>], mousePos = None, isDrawing = True, polygons = [],
          draggedPoint = Some (Current 0), hoveredPoint = None, cursorStyle = Grabbing\<rparr>
   \<and> handleContextMenu
        \<lparr>points = [\<lparr>px = 0, py = 0\<rparr>], mousePos = None, isDrawing = True, polygons = [],
          draggedPoint = Some (Current 0), hoveredPoint = None, cursorStyle = Grabbing\<rparr> 5 5
   = \<lparr>points = [\<lparr>px = 0, py = 0\<rparr>, \<lparr>px = 5, py = 5\<rparr>], mousePos = None, isDrawing = True,
      polygons = [], draggedPoint = Some (Current 0), hoveredPoint = None,
      cursorStyle = Grabbing\<rparr>
   \<and> handleContextMenu
        \<lparr>points = [\<lparr>px = 0, py = 0\<rparr>], mousePos = None, isDrawing = True, polygons = [],
          draggedPoint = Some (Current 0), hoveredPoint = None, cursorStyle = Grabbing\<rparr> 5 5
   \<noteq> \<lparr>points = [\<lparr>px = 0, py = 0\<rparr>], mousePos = None, isDrawing = True, polygons = [],
          draggedPoint = Some (Current 0), hoveredPoint = None, cursorStyle = Grabbing\<rparr>"
  by (simp add: initial_state_def handleContextMenu_def handleMouseDown_def
      getPointAtPosition_def getPointAtPosition_current.simps distance_le_10_iff)

text \<open>
  C5, amended. While \<open>draggedPoint\<close> is set, \<open>handleClick\<close> returns the state
  unchanged. \<open>handleContextMenu\<close> does not look at \<open>draggedPoint\<close>: it appends the cursor
  position to \<open>points\<close> and sets \<open>isDrawing\<close>, and leaves \<open>polygons\<close> and
  \<open>draggedPoint\<close> as they are.
\<close>

theorem drag_active_gestures:
  assumes "draggedPoint s \<noteq> None"
  shows "handleClick s x y = s
       \<and> handleContextMenu s x y
           = s\<lparr>points := points s @ [\<lparr>px = x, py = y\<rparr>], isDrawing := True\<rparr>
       \<and> polygons (handleContextMenu s x y) = polygons s
       \<and> draggedPoint (handleContextMenu s x y) = draggedPoint s"
  using assms by (simp add: handleClick_def handleContextMenu_def)

theorem drag_active_gestures_witness:
  "handleClick
     \<lparr>points = [\<lparr>px = 0, py = 0\<rparr>], mousePos = None, isDrawing = True, polygons = [],
       draggedPoint = Some (Current 0), hoveredPoint = None, cursorStyle = Grabbing\<rparr> 0 0
   = \<lparr>points = [\<lparr>px = 0, py = 0\<rparr>], mousePos = None, isDrawing = True, polygons = [],
       draggedPoint = Some (Current 0), hoveredPoint = None, cursorStyle = Grabbing\<rparr>
   \<and> points (handleContextMenu
     \<lparr>points = [\<lparr>px = 0, py = 0\<rparr>], mousePos = None, isDrawing = True, polygons = [],
       draggedPoint = Some (Current 0), hoveredPoint = None, cursorStyle = Grabbing\<rparr> 5 5)
   = [\<lparr>px = 0, py = 0\<rparr>, \<lparr>px = 5, py = 5\<rparr>]"
  using drag_active_gestures
    [of "\<lparr>points = [\<lparr>px = 0, py = 0\<rparr>], mousePos = None, isDrawing = True, polygons = [],
       draggedPoint = Some (Current 0), hoveredPoint = None, cursorStyle = Grabbing\<rparr>" 0 0]
   drag_active_gestures
    [of "\<lparr>points = [\<lparr>px = 0, py = 0\<rparr>], mousePos = None, isDrawing = True, polygons = [],
       draggedPoint = Some (Current 0), hoveredPoint = None, cursorStyle = Grabbing\<rparr>" 5 5]
  by simp

section \<open>Pointer motion\<close>

text \<open>
  C9. With no drag and \<open>isDrawing\<close> set, \<open>handleMouseMove\<close> records the cursor in
  \<open>mousePos\<close>; \<open>points\<close>, \<open>polygons\<close> and \<open>isDrawing\<close> are unchanged. In App.jsx the
  same handler also refreshes \<open>hoveredPoint\<close> and \<open>cursorStyle\<close> from the hit test; in
  the variant without drag editing \<open>mousePos\<close> is the only field that changes.
\<close>

theorem handleMouseMove_preview:
  assumes "draggedPoint s = None" and "isDrawing s" and "isDrawing s0"
  shows "handleMouseMove s x y =
           Inr (s\<lparr>mousePos := Some \<lparr>px = x, py = y\<rparr>,
                  hoveredPoint := getPointAtPosition s x y,
                  cursorStyle := (case getPointAtPosition s x y of
                                    Some t \<Rightarrow> Pointer | None \<Rightarrow> Crosshair)\<rparr>)
       \<and> handleMouseMove_v0 s0 x y = s0\<lparr>mousePos := Some \<lparr>px = x, py = y\<rparr>\<rparr>"
  using assms
  by (simp add: handleMouseMove_def handleMouseMove_v0_def Let_def split: option.splits)

theorem handleMouseMove_preview_witness:
  "handleMouseMove
     \<lparr>points = [\<lparr>px = 0, py = 0\<rparr>], mousePos = None, isDrawing = True, polygons = [],
       draggedPoint = None, hoveredPoint = None, cursorStyle = Crosshair\<rparr> 30 40
   = Inr \<lparr>points = [\<lparr>px = 0, py = 0\<rparr>], mousePos = Some \<lparr>px = 30, py = 40\<rparr>,
       isDrawing = True, polygons = [],
       draggedPoint = None, hoveredPoint = None, cursorStyle = Crosshair\<rparr>
   \<and> handleMouseMove_v0
     \<lparr>points = [\<lparr>px = 0, py = 0\<rparr>], mousePos = None, isDrawing = True, polygons = []\<rparr> 30 40
   = \<lparr>points = [\<lparr>px = 0, py = 0\<rparr>], mousePos = Some \<lparr>px = 30, py = 40\<rparr>,
       isDrawing = True, polygons = []\<rparr>"
  using handleMouseMove_preview
    [of "\<lparr>points = [\<lparr>px = 0, py = 0\<rparr>], mousePos = None, isDrawing = True, polygons = [],
       draggedPoint = None, hoveredPoint = None, cursorStyle = Crosshair\<rparr>"
       "\<lparr>points = [\<lparr>px = 0, py = 0\<rparr>], mousePos = None, isDrawing = True, polygons = []\<rparr>" 30 40]
  by (simp add: getPointAtPosition_def getPointAtPosition_current.simps
      getPointAtPosition_polygons.simps distance_le_10_iff)

text \<open>
  C2. When the drag target is vertex \<open>k\<close> of stored polygon \<open>j\<close>, \<open>handleMouseMove\<close>
  returns a state in which that polygon's points are the old ones with vertex \<open>k\<close>
  replaced by the cursor, and its \<open>area\<close> field is \<open>calculateArea\<close> (the
  specification's \<open>PolygonArea\<close>) of exactly those new points.
\<close>

theorem handleMouseMove_drag_area:
  assumes "draggedPoint s = Some (Polygon k j)"
    and "j < length (polygons s)"
    and "k < length (poly_points (polygons s ! j))"
  shows "\<exists>s'. handleMouseMove s x y = Inr s'
           \<and> poly_points (polygons s' ! j)
               = (poly_points (polygons s ! j))[k := \<lparr>px = x, py = y\<rparr>]
           \<and> area (polygons s' ! j) = calculateArea (poly_points (polygons s' ! j))
           \<and> area (polygons s' ! j) = PolygonArea (poly_points (polygons s' ! j))"
  using assms
  by (simp add: handleMouseMove_drag_polygon calculateArea_eq_PolygonArea)

theorem handleMouseMove_drag_area_witness:
  "\<exists>s'. handleMouseMove
     \<lparr>points = [], mousePos = None, isDrawing = False,
      polygons = [\<lparr>area = 16, poly_points = [\<lparr>px = 0, py = 0\<rparr>, \<lparr>px = 4, py = 0\<rparr>,
                                               \<lparr>px = 4, py = 4\<rparr>, \<lparr>px = 0, py = 4\<rparr>]\<rparr>],
      draggedPoint = Some (Polygon 2 0), hoveredPoint = Some (Polygon 2 0),
      cursorStyle = Grabbing\<rparr> 6 6 = Inr s'
    \<and> poly_points (polygons s' ! 0)
        = [\<lparr>px = 0, py = 0\<rparr>, \<lparr>px = 4, py = 0\<rparr>, \<lparr>px = 6, py = 6\<rparr>, \<lparr>px = 0, py = 4\<rparr>]
    \<and> area (polygons s' ! 0) = 24"
proof -
  let ?s = "\<lparr>points = [], mousePos = None, isDrawing = False,
      polygons = [\<lparr>area = 16, poly_points = [\<lparr>px = 0, py = 0\<rparr>, \<lparr>px = 4, py = 0\<rparr>,
                                               \<lparr>px = 4, py = 4\<rparr>, \<lparr>px = 0, py = 4\<rparr>]\<rparr>],
      draggedPoint = Some (Polygon 2 0), hoveredPoint = Some (Polygon 2 0),
      cursorStyle = Grabbing\<rparr>"
  have h1: "draggedPoint ?s = Some (Polygon 2 0)" by simp
  have h2: "0 < length (polygons ?s)" by simp
  have h3: "2 < length (poly_points (polygons ?s ! 0))" by simp
  from handleMouseMove_drag_area [OF h1 h2 h3, of 6 6]
  obtain s' where r: "handleMouseMove ?s 6 6 = Inr s'"
    and p: "poly_points (polygons s' ! 0)
            = (poly_points (polygons ?s ! 0))[2 := \<lparr>px = 6, py = 6\<rparr>]"
    and a: "area (polygons s' ! 0) = calculateArea (poly_points (polygons s' ! 0))"
    by blast
  from p have p': "poly_points (polygons s' ! 0)
        = [\<lparr>px = 0, py = 0\<rparr>, \<lparr>px = 4, py = 0\<rparr>, \<lparr>px = 6, py = 6\<rparr>, \<lparr>px = 0, py = 4\<rparr>]"
    by simp
  have "area (polygons s' ! 0) = 24"
    unfolding a p' by (simp add: calculateArea_def calculateArea_loop.simps Let_def)
  with r p' show ?thesis by blast
qed

text \<open>
  C8. When the drag target is vertex \<open>k\<close> of stored polygon \<open>j\<close>, \<open>handleMouseMove\<close>
  changes nothing but that vertex and that polygon's area: the store keeps its length,
  every other polygon is the same, polygon \<open>j\<close> keeps its number of vertices and all
  its other vertices, and every state field other than \<open>polygons\<close> is the same.
  Moreover no event ever shortens the store, and only a click lengthens it, by
  appending one polygon.
\<close>

theorem handleMouseMove_drag_frame:
  assumes "draggedPoint s = Some (Polygon k j)"
    and "j < length (polygons s)"
    and "k < length (poly_points (polygons s ! j))"
  shows "(\<exists>s'. handleMouseMove s x y = Inr s'
           \<and> length (polygons s') = length (polygons s)
           \<and> (\<forall>i < length (polygons s). i \<noteq> j \<longrightarrow> polygons s' ! i = polygons s ! i)
           \<and> length (poly_points (polygons s' ! j)) = length (poly_points (polygons s ! j))
           \<and> (\<forall>m < length (poly_points (polygons s ! j)). m \<noteq> k \<longrightarrow>
                 poly_points (polygons s' ! j) ! m = poly_points (polygons s ! j) ! m)
           \<and> poly_points (polygons s' ! j) ! k = \<lparr>px = x, py = y\<rparr>
           \<and> s' = s\<lparr>polygons := polygons s'\<rparr>)
       \<and> (handle t e = Inr t' \<longrightarrow>
            length (polygons t) \<le> length (polygons t')
            \<and> (length (polygons t) < length (polygons t') \<longrightarrow>
                 (\<exists>cx cy. e = Click cx cy) \<and> (\<exists>p. polygons t' = polygons t @ [p])))"
  using assms handle_polygons_grow [of t e t']
  by (simp add: handleMouseMove_drag_polygon)

theorem handleMouseMove_drag_frame_witness:
  "(\<exists>s'. handleMouseMove
       \<lparr>points = [\<lparr>px = 9, py = 9\<rparr>], mousePos = None, isDrawing = True,
        polygons = [\<lparr>area = 6, poly_points =
                      [\<lparr>px = 0, py = 0\<rparr>, \<lparr>px = 4, py = 0\<rparr>, \<lparr>px = 0, py = 3\<rparr>]\<rparr>,
                    \<lparr>area = 16, poly_points =
                      [\<lparr>px = 0, py = 0\<rparr>, \<lparr>px = 4, py = 0\<rparr>, \<lparr>px = 4, py = 4\<rparr>,
                       \<lparr>px = 0, py = 4\<rparr>]\<rparr>],
        draggedPoint = Some (Polygon 2 1), hoveredPoint = None, cursorStyle = Grabbing\<rparr> 6 6
       = Inr s'
     \<and> length (polygons s') = 2
     \<and> polygons s' ! 0
         = \<lparr>area = 6, poly_points =
              [\<lparr>px = 0, py = 0\<rparr>, \<lparr>px = 4, py = 0\<rparr>, \<lparr>px = 0, py = 3\<rparr>]\<rparr>
     \<and> length (poly_points (polygons s' ! 1)) = 4
     \<and> poly_points (polygons s' ! 1) ! 0 = \<lparr>px = 0, py = 0\<rparr>
     \<and> poly_points (polygons s' ! 1) ! 1 = \<lparr>px = 4, py = 0\<rparr>
     \<and> poly_points (polygons s' ! 1) ! 2 = \<lparr>px = 6, py = 6\<rparr>
     \<and> poly_points (polygons s' ! 1) ! 3 = \<lparr>px = 0, py = 4\<rparr>
     \<and> points s' = [\<lparr>px = 9, py = 9\<rparr>])
   \<and> length (polygons (handleClick
       \<lparr>points = [\<lparr>px = 0, py = 0\<rparr>, \<lparr>px = 4, py = 0\<rparr>, \<lparr>px = 0, py = 3\<rparr>],
        mousePos = None, isDrawing = True, polygons = [],
        draggedPoint = None, hoveredPoint = None, cursorStyle = Crosshair\<rparr> 1 1)) = 1"
proof -
  let ?s = "\<lparr>points = [\<lparr>px = 9, py = 9\<rparr>], mousePos = None, isDrawing = True,
        polygons = [\<lparr>area = 6, poly_points =
                      [\<lparr>px = 0, py = 0\<rparr>, \<lparr>px = 4, py = 0\<rparr>, \<lparr>px = 0, py = 3\<rparr>]\<rparr>,
                    \<lparr>area = 16, poly_points =
                      [\<lparr>px = 0, py = 0\<rparr>, \<lparr>px = 4, py = 0\<rparr>, \<lparr>px = 4, py = 4\<rparr>,
                       \<lparr>px = 0, py = 4\<rparr>]\<rparr>],
        draggedPoint = Some (Polygon 2 1), hoveredPoint = None, cursorStyle = Grabbing\<rparr>"
  let ?t = "\<lparr>points = [\<lparr>px = 0, py = 0\<rparr>, \<lparr>px = 4, py = 0\<rparr>, \<lparr>px = 0, py = 3\<rparr>],
        mousePos = None, isDrawing = True, polygons = [],
        draggedPoint = None, hoveredPoint = None, cursorStyle = Crosshair\<rparr>"
  have h1: "draggedPoint ?s = Some (Polygon 2 1)" by simp
  have h2: "1 < length (polygons ?s)" by simp
  have h3: "2 < length (poly_points (polygons ?s ! 1))" by simp
  have h4: "handle ?t (Click 1 1) = Inr (handleClick ?t 1 1)" by simp
  have grow: "length (polygons ?t) < length (polygons (handleClick ?t 1 1))"
    by (simp add: handleClick_def distance_le_10_iff Let_def)
  note inst = handleMouseMove_drag_frame [OF h1 h2 h3, of 6 6 ?t "Click 1 1" "handleClick ?t 1 1"]
  from inst obtain s' where r: "handleMouseMove ?s 6 6 = Inr s'"
    and l: "length (polygons s') = length (polygons ?s)"
    and o: "\<forall>i < length (polygons ?s). i \<noteq> 1 \<longrightarrow> polygons s' ! i = polygons ?s ! i"
    and n: "length (poly_points (polygons s' ! 1)) = length (poly_points (polygons ?s ! 1))"
    and v: "\<forall>m < length (poly_points (polygons ?s ! 1)). m \<noteq> 2 \<longrightarrow>
              poly_points (polygons s' ! 1) ! m = poly_points (polygons ?s ! 1) ! m"
    and w: "poly_points (polygons s' ! 1) ! 2 = \<lparr>px = 6, py = 6\<rparr>"
    and f: "s' = ?s\<lparr>polygons := polygons s'\<rparr>"
    by blast
  from o have o0: "polygons s' ! 0 = polygons ?s ! 0" by simp
  from v have v0: "poly_points (polygons s' ! 1) ! 0 = poly_points (polygons ?s ! 1) ! 0"
    and v1: "poly_points (polygons s' ! 1) ! 1 = poly_points (polygons ?s ! 1) ! 1"
    and v3: "poly_points (polygons s' ! 1) ! 3 = poly_points (polygons ?s ! 1) ! 3"
    by simp_all
  from f have pts: "points s' = [\<lparr>px = 9, py = 9\<rparr>]"
    by (metis app_state_v0.select_convs(1) app_state_v0.surjective app_state_v0.update_convs(4))
  from inst h4 grow obtain p where "polygons (handleClick ?t 1 1) = polygons ?t @ [p]"
    by blast
  then have "length (polygons (handleClick ?t 1 1)) = 1" by simp
  moreover have "\<exists>s'. handleMouseMove ?s 6 6 = Inr s'
     \<and> length (polygons s') = 2
     \<and> polygons s' ! 0
         = \<lparr>area = 6, poly_points =
              [\<lparr>px = 0, py = 0\<rparr>, \<lparr>px = 4, py = 0\<rparr>, \<lparr>px = 0, py = 3\<rparr>]\<rparr>
     \<and> length (poly_points (polygons s' ! 1)) = 4
     \<and> poly_points (polygons s' ! 1) ! 0 = \<lparr>px = 0, py = 0\<rparr>
     \<and> poly_points (polygons s' ! 1) ! 1 = \<lparr>px = 4, py = 0\<rparr>
     \<and> poly_points (polygons s' ! 1) ! 2 = \<lparr>px = 6, py = 6\<rparr>
     \<and> poly_points (polygons s' ! 1) ! 3 = \<lparr>px = 0, py = 4\<rparr>
     \<and> points s' = [\<lparr>px = 9, py = 9\<rparr>]"
    using r l o0 n v0 v1 v3 w pts by (intro exI [of _ s']) simp
  ultimately show ?thesis by blast
qed

section \<open>Hit-testing priority\<close>

text \<open>
  C6. \<open>getPointAtPosition\<close> returns the first chain vertex, in index order, within
  distance \<open>10\<close> of the cursor; only if no chain vertex is within \<open>10\<close> does it return
  the first vertex within \<open>10\<close> of the first stored polygon that has one, polygons
  taken in store order and vertices in index order. So whenever some chain vertex is
  within \<open>10\<close> the result is a chain target, whatever the stored polygons are; and
  the result is \<open>None\<close> exactly when no vertex at all is within \<open>10\<close>.
\<close>

theorem getPointAtPosition_priority:
  "(i < length (points s) \<and> distance x y (points s ! i) \<le> 10
      \<and> (\<forall>m < i. 10 < distance x y (points s ! m))
      \<longrightarrow> getPointAtPosition s x y = Some (Current i))
   \<and> ((\<forall>m < length (points s). 10 < distance x y (points s ! m))
      \<and> j < length (polygons s) \<and> k < length (poly_points (polygons s ! j))
      \<and> distance x y (poly_points (polygons s ! j) ! k) \<le> 10
      \<and> (\<forall>m < k. 10 < distance x y (poly_points (polygons s ! j) ! m))
      \<and> (\<forall>j' < j. \<forall>m < length (poly_points (polygons s ! j')).
            10 < distance x y (poly_points (polygons s ! j') ! m))
      \<longrightarrow> getPointAtPosition s x y = Some (Polygon k j))
   \<and> ((\<exists>m < length (points s). distance x y (points s ! m) \<le> 10)
      \<longrightarrow> (\<exists>c < length (points s). getPointAtPosition s x y = Some (Current c)))
   \<and> (getPointAtPosition s x y = None
      \<longleftrightarrow> (\<forall>m < length (points s). 10 < distance x y (points s ! m))
        \<and> (\<forall>j' < length (polygons s). \<forall>m < length (poly_points (polygons s ! j')).
              10 < distance x y (poly_points (polygons s ! j') ! m)))"
proof (intro conjI impI)
  assume "i < length (points s) \<and> distance x y (points s ! i) \<le> 10
      \<and> (\<forall>m < i. 10 < distance x y (points s ! m))"
  then have "getPointAtPosition_current (points s) x y 0 = Some (Current i)"
    by (intro getPointAtPosition_current_Some) simp_all
  then show "getPointAtPosition s x y = Some (Current i)"
    by (simp add: getPointAtPosition_def)
next
  assume a: "(\<forall>m < length (points s). 10 < distance x y (points s ! m))
      \<and> j < length (polygons s) \<and> k < length (poly_points (polygons s ! j))
      \<and> distance x y (poly_points (polygons s ! j) ! k) \<le> 10
      \<and> (\<forall>m < k. 10 < distance x y (poly_points (polygons s ! j) ! m))
      \<and> (\<forall>j' < j. \<forall>m < length (poly_points (polygons s ! j')).
            10 < distance x y (poly_points (polygons s ! j') ! m))"
  then have "getPointAtPosition_current (points s) x y 0 = None"
    by (simp add: getPointAtPosition_current_None)
  moreover from a have "getPointAtPosition_polygons (polygons s) x y 0 = Some (Polygon k j)"
    by (intro getPointAtPosition_polygons_Some) simp_all
  ultimately show "getPointAtPosition s x y = Some (Polygon k j)"
    by (simp add: getPointAtPosition_def)
next
  assume "\<exists>m < length (points s). distance x y (points s ! m) \<le> 10"
  then obtain m where m: "m < length (points s) \<and> distance x y (points s ! m) \<le> 10"
    by blast
  define c where "c = (LEAST m. m < length (points s) \<and> distance x y (points s ! m) \<le> 10)"
  have c: "c < length (points s) \<and> distance x y (points s ! c) \<le> 10"
    unfolding c_def using m by (rule LeastI)
  have "\<forall>n < c. 10 < distance x y (points s ! n)"
  proof (intro allI impI)
    fix n assume "n < c"
    then have "\<not> (n < length (points s) \<and> distance x y (points s ! n) \<le> 10)"
      unfolding c_def by (rule not_less_Least)
    with \<open>n < c\<close> c show "10 < distance x y (points s ! n)"
      by simp
  qed
  with c have "getPointAtPosition_current (points s) x y 0 = Some (Current c)"
    by (intro getPointAtPosition_current_Some) simp_all
  with c show "\<exists>c < length (points s). getPointAtPosition s x y = Some (Current c)"
    by (auto simp add: getPointAtPosition_def)
next
  show "getPointAtPosition s x y = None
      \<longleftrightarrow> (\<forall>m < length (points s). 10 < distance x y (points s ! m))
        \<and> (\<forall>j' < length (polygons s). \<forall>m < length (poly_points (polygons s ! j')).
              10 < distance x y (poly_points (polygons s ! j') ! m))"
  proof (cases "getPointAtPosition_current (points s) x y 0")
    case None
    then show ?thesis
      using getPointAtPosition_current_None [of "points s" x y 0]
      by (simp add: getPointAtPosition_def getPointAtPosition_polygons_None)
  next
    case (Some t)
    then have "\<not> (\<forall>m < length (points s). 10 < distance x y (points s ! m))"
      using getPointAtPosition_current_None [of "points s" x y 0] by simp
    with Some show ?thesis
      by (simp add: getPointAtPosition_def)
  qed
qed

theorem getPointAtPosition_priority_witness:
  "getPointAtPosition
     \<lparr>points = [\<lparr>px = 50, py = 50\<rparr>, \<lparr>px = 3, py = 4\<rparr>], mousePos = None, isDrawing = True,
      polygons = [\<lparr>area = 9900, poly_points =
                    [\<lparr>px = 100, py = 100\<rparr>, \<lparr>px = 1, py = 1\<rparr>, \<lparr>px = 200, py = 0\<rparr>]\<rparr>],
      draggedPoint = None, hoveredPoint = None, cursorStyle = Crosshair\<rparr> 2 2
   = Some (Current 1)
   \<and> getPointAtPosition
     \<lparr>points = [\<lparr>px = 50, py = 50\<rparr>], mousePos = None, isDrawing = True,
      polygons = [\<lparr>area = 9900, poly_points =
                    [\<lparr>px = 100, py = 100\<rparr>, \<lparr>px = 1, py = 1\<rparr>, \<lparr>px = 200, py = 0\<rparr>]\<rparr>],
      draggedPoint = None, hoveredPoint = None, cursorStyle = Crosshair\<rparr> 2 2
   = Some (Polygon 1 0)
   \<and> getPointAtPosition
     \<lparr>points = [\<lparr>px = 50, py = 50\<rparr>], mousePos = None, isDrawing = True,
      polygons = [\<lparr>area = 9900, poly_points =
                    [\<lparr>px = 100, py = 100\<rparr>, \<lparr>px = 1, py = 1\<rparr>, \<lparr>px = 200, py = 0\<rparr>]\<rparr>],
      draggedPoint = None, hoveredPoint = None, cursorStyle = Crosshair\<rparr> 300 300
   = None"
proof -
  let ?poly = "\<lparr>area = 9900, poly_points =
                    [\<lparr>px = 100, py = 100\<rparr>, \<lparr>px = 1, py = 1\<rparr>, \<lparr>px = 200, py = 0\<rparr>]\<rparr>"
  let ?s1 = "\<lparr>points = [\<lparr>px = 50, py = 50\<rparr>, \<lparr>px = 3, py = 4\<rparr>], mousePos = None,
      isDrawing = True, polygons = [?poly],
      draggedPoint = None, hoveredPoint = None, cursorStyle = Crosshair\<rparr>"
  let ?s2 = "\<lparr>points = [\<lparr>px = 50, py = 50\<rparr>], mousePos = None,
      isDrawing = True, polygons = [?poly],
      draggedPoint = None, hoveredPoint = None, cursorStyle = Crosshair\<rparr>"
  have "getPointAtPosition ?s1 2 2 = Some (Current 1)"
    using getPointAtPosition_priority [where s = ?s1 and x = 2 and y = 2 and i = 1]
    by (simp add: distance_le_10_iff distance_gt_10_iff)
  moreover have "getPointAtPosition ?s2 2 2 = Some (Polygon 1 0)"
    using getPointAtPosition_priority [where s = ?s2 and x = 2 and y = 2 and j = 0 and k = 1]
    by (simp add: distance_le_10_iff distance_gt_10_iff)
  moreover have "getPointAtPosition ?s2 300 300 = None"
    using getPointAtPosition_priority [where s = ?s2 and x = 300 and y = 300]
    by (simp add: distance_le_10_iff distance_gt_10_iff All_less_Suc)
  ultimately show ?thesis by simp
qed

end
